theory Spec2Isabelle
  imports Main "HOL-Library.Sublist"
begin

section \<open>String primitives of the host language\<close>

text \<open>
  Strings are lists of characters; a character beyond ASCII is held as its UTF-8 bytes.
  \<open>startsWith\<close> and \<open>str_includes\<close> are \<open>String.prototype.startsWith\<close> and
  \<open>String.prototype.includes\<close> (substring search); the source calls them with ASCII
  literals only, and an ASCII text occurs in a UTF-8 text at the same places whether the
  text is read byte by byte or character by character.
  \<open>String.prototype.toUpperCase\<close> and \<open>String.prototype.trim\<close> are not defined here:
  a function of the source that calls them takes them as the parameters \<open>toUpperCase\<close> and
  \<open>trim\<close>, and a statement about it holds whatever they compute.
\<close>

fun startsWith :: "string \<Rightarrow> string \<Rightarrow> bool" where
  "startsWith s [] = True"
| "startsWith [] (p # ps) = False"
| "startsWith (c # cs) (p # ps) = (c = p \<and> startsWith cs ps)"

fun str_includes :: "string \<Rightarrow> string \<Rightarrow> bool" where
  "str_includes [] p = (p = [])"
| "str_includes (c # cs) p = (startsWith (c # cs) p \<or> str_includes cs p)"

text \<open>
  For the examples, which are ASCII text: \<open>asciiUpperCase\<close> maps the letters a-z to A-Z
  and \<open>asciiTrim\<close> removes tab, line feed, vertical tab, form feed, carriage return and
  space from both ends, as the two built-in functions do on such text.
\<close>

definition asciiUpperChar :: "char \<Rightarrow> char" where
  "asciiUpperChar c =
     (case map_of (zip ''abcdefghijklmnopqrstuvwxyz'' ''ABCDEFGHIJKLMNOPQRSTUVWXYZ'') c of
        Some u \<Rightarrow> u
      | None \<Rightarrow> c)"

definition asciiUpperCase :: "string \<Rightarrow> string" where
  "asciiUpperCase s = map asciiUpperChar s"

definition asciiWhiteSpace :: "char \<Rightarrow> bool" where
  "asciiWhiteSpace c = (c \<in> set [CHR 0x09, CHR 0x0A, CHR 0x0B, CHR 0x0C, CHR 0x0D, CHR '' ''])"

definition asciiTrim :: "string \<Rightarrow> string" where
  "asciiTrim s = rev (dropWhile asciiWhiteSpace (rev (dropWhile asciiWhiteSpace s)))"

text \<open>
  A number inside a template literal is rendered in decimal: \<open>natToString\<close> for a
  nonnegative integer, \<open>numberToString\<close> for any integer.
\<close>

definition digit :: "nat \<Rightarrow> char" where
  "digit n = ''0123456789'' ! n"

function digits :: "nat \<Rightarrow> string \<Rightarrow> string" where
  "digits n acc = (if 10 \<le> n then digits (n div 10) (digit (n mod 10) # acc) else digit n # acc)"
  by pat_completeness auto
termination
  by (relation "measure fst") auto

definition natToString :: "nat \<Rightarrow> string" where
  "natToString n = digits n []"

definition numberToString :: "int \<Rightarrow> string" where
  "numberToString i = (if 0 \<le> i then natToString (nat i) else CHR ''-'' # natToString (nat (- i)))"

section \<open>Errors, log lines and observable effects\<close>

text \<open>
  A thrown \<open>Error\<close> object carries its message; \<open>toString\<close> is \<open>String(e)\<close>, which
  prefixes the message with the error's name.
\<close>

datatype Error = Error string

fun error_message :: "Error \<Rightarrow> string" where
  "error_message (Error m) = m"

definition toString :: "Error \<Rightarrow> string" where
  "toString e = ''Error: '' @ error_message e"

text \<open>
  Every function returns the list of effects it performed, in order: the lines it logged,
  the timers it awaited (\<open>Sleep\<close>, in milliseconds), the start of each pass through the
  connection loop's \<open>try\<close> body (\<open>Attempt\<close>), the calls of a connection's \<open>query\<close>
  method (\<open>Query\<close>, with the connection object's address and the query text), and the
  calls into the embedding provider registry and the providers.
\<close>

datatype event =
    LogDebug string
  | LogInfo string
  | LogWarn string
  | LogError string
  | Sleep nat
  | Attempt nat
  | Query nat string
  | GetProvider string
  | DenseEmbed string string string
  | SparseEmbed string string string

fun attempts :: "event list \<Rightarrow> nat list" where
  "attempts [] = []"
| "attempts (Attempt n # evs) = n # attempts evs"
| "attempts (ev # evs) = attempts evs"

fun sleeps :: "event list \<Rightarrow> nat list" where
  "sleeps [] = []"
| "sleeps (Sleep ms # evs) = ms # sleeps evs"
| "sleeps (ev # evs) = sleeps evs"

fun schedule :: "event list \<Rightarrow> event list" where
  "schedule [] = []"
| "schedule (Attempt n # evs) = Attempt n # schedule evs"
| "schedule (Sleep ms # evs) = Sleep ms # schedule evs"
| "schedule (ev # evs) = schedule evs"

fun isQuery :: "event \<Rightarrow> bool" where
  "isQuery (Query h q) = True"
| "isQuery ev = False"

fun isProviderCall :: "event \<Rightarrow> bool" where
  "isProviderCall (GetProvider n) = True"
| "isProviderCall (DenseEmbed p t m) = True"
| "isProviderCall (SparseEmbed p t m) = True"
| "isProviderCall ev = False"

section \<open>Configuration and process-wide state\<close>

text \<open>
  \<open>KDBConfig\<close> follows \<open>KDBConfigSchema\<close>: \<open>port\<close>, \<open>timeout\<close>, \<open>retry\<close> and \<open>k\<close> are
  declared there as integers that are positive (\<open>retry\<close>: nonnegative), hence \<open>nat\<close>.
\<close>

record KDBConfig =
  host :: string
  port :: nat
  username :: string
  password :: string
  tls :: bool
  timeout :: nat
  retry :: nat
  embeddingCsvPath :: string
  metric :: string
  k :: nat

text \<open>The defaults of \<open>loadKDBConfig\<close>.\<close>

definition defaultKDBConfig :: KDBConfig where
  "defaultKDBConfig =
     \<lparr>host = ''127.0.0.1'', port = 5000, username = [], password = [], tls = False,
      timeout = 1, retry = 2, embeddingCsvPath = ''src/mcp_server/utils/embeddings.csv'',
      metric = ''CS'', k = 5\<rparr>"

record KDBConnectionImpl =
  connected :: bool
  config :: KDBConfig

text \<open>
  A parsed CSV record maps a column name to its cell: \<open>None\<close> is a column the record does
  not have (\<open>undefined\<close>), \<open>Some None\<close> is \<open>null\<close>, \<open>Some (Some s)\<close> a string.
\<close>

type_synonym csv_record = "string \<rightharpoonup> string option"

text \<open>
  The module-level variables: \<open>cachedConnection\<close> (the address of a connection object, or
  \<open>null\<close>) and \<open>csvCache\<close>. Connection objects live in \<open>objects\<close>; an object's address
  is its index, and \<open>new\<close> appends.
\<close>

record state =
  cachedConnection :: "nat option"
  objects :: "KDBConnectionImpl list"
  csvCache :: "string \<rightharpoonup> csv_record list"

text \<open>The state of a process that has just started.\<close>

definition initialState :: state where
  "initialState = \<lparr>cachedConnection = None, objects = [], csvCache = Map.empty\<rparr>"

section \<open>The connection module\<close>

text \<open>
  The \<open>try\<close> body of the loop is \<open>cachedConnection = conn; logger.info('Connected to
  Q/KDB-X'); return conn\<close>; the call of \<open>conn.connect()\<close> before it is commented out. The
  model assigns the cache first and takes what follows as the parameter \<open>step\<close>: for
  attempt \<open>n\<close>, \<open>step n\<close> is \<open>Inl e\<close> when the body throws \<open>e\<close> after the assignment (in the
  source as it stands the call of the logger, which is an argument of \<open>getKDBConnection\<close>,
  is the one statement that can), and \<open>Inr b\<close> when the body completes, \<open>b\<close> being the
  \<open>connected\<close> flag that the attempt leaves on the object. In the source as it stands
  nothing sets the flag: that is \<open>connect_todo\<close>. \<open>connect_impl\<close> is an attempt that
  leaves the object connected, as \<open>KDBConnectionImpl.connect\<close> does when it is called.
\<close>

type_synonym connect_step = "nat \<Rightarrow> Error + bool"

definition connect_todo :: connect_step where
  "connect_todo n = Inr False"

definition connect_impl :: connect_step where
  "connect_impl n = Inr True"

text \<open>
  \<open>cachedConnection.isConnected()\<close>. A cached address always is the address of an object
  (\<open>wf_state\<close> below); the bound is there because a HOL list can be read anywhere.
\<close>

definition isConnected :: "state \<Rightarrow> nat \<Rightarrow> bool" where
  "isConnected s h = (h < length (objects s) \<and> connected (objects s ! h))"

definition failEvents :: "KDBConfig \<Rightarrow> nat \<Rightarrow> Error \<Rightarrow> event list" where
  "failEvents cfg attempt e =
     [Attempt attempt,
      LogWarn (''KDB-X connectivity attempt '' @ natToString attempt @ ''/''
               @ natToString (retry cfg + 1) @ '' failed: '' @ error_message e)]
     @ (if attempt < retry cfg + 1 then [Sleep (1000 * attempt)] else [])"

text \<open>
  The \<open>for\<close> loop of \<open>getKDBConnection\<close>, entered at \<open>attempt\<close> with \<open>lastError\<close> and the
  fresh connection object at address \<open>h\<close>. An attempt that fails has assigned the cache
  already, so the next attempt starts from that state.
\<close>

function connectLoop ::
  "connect_step \<Rightarrow> KDBConfig \<Rightarrow> nat \<Rightarrow> nat \<Rightarrow> Error option \<Rightarrow> state
     \<Rightarrow> (Error + nat) \<times> state \<times> event list" where
  "connectLoop step cfg h attempt lastError s =
     (if attempt \<le> retry cfg + 1 then
        (case step attempt of
           Inr b \<Rightarrow>
             (Inr h,
              s\<lparr>cachedConnection := Some h,
                objects := (objects s)[h := \<lparr>connected = b, config = cfg\<rparr>]\<rparr>,
              [Attempt attempt, LogInfo ''Connected to Q/KDB-X''])
         | Inl e \<Rightarrow>
             (case connectLoop step cfg h (attempt + 1) (Some e)
                     (s\<lparr>cachedConnection := Some h\<rparr>) of
                (r, s', evs) \<Rightarrow> (r, s', failEvents cfg attempt e @ evs)))
      else
        (Inl (case lastError of Some e \<Rightarrow> e | None \<Rightarrow> Error ''Failed to connect to KDB-X''),
         s, [LogError ''Failed to connect to KDB'']))"
  by pat_completeness auto
termination
  by (relation "measure (\<lambda>(step, cfg, h, attempt, lastError, s). retry cfg + 2 - attempt)") auto

text \<open>
  The connect sequence of \<open>getKDBConnection\<close>: the log line, the new connection object
  and the loop.
\<close>

definition connectFresh ::
  "connect_step \<Rightarrow> KDBConfig \<Rightarrow> state \<Rightarrow> (Error + nat) \<times> state \<times> event list" where
  "connectFresh step cfg s =
     (case connectLoop step cfg (length (objects s)) 1 None
             (s\<lparr>objects := objects s @ [\<lparr>connected = False, config = cfg\<rparr>]\<rparr>) of
        (r, s', evs) \<Rightarrow>
          (r, s', LogInfo (''Connecting to KDB at '' @ host cfg @ '':''
                           @ natToString (port cfg)) # evs))"

definition getKDBConnection ::
  "connect_step \<Rightarrow> KDBConfig \<Rightarrow> state \<Rightarrow> (Error + nat) \<times> state \<times> event list" where
  "getKDBConnection step cfg s =
     (case cachedConnection s of
        Some h \<Rightarrow> if isConnected s h then (Inr h, s, []) else connectFresh step cfg s
      | None \<Rightarrow> connectFresh step cfg s)"

definition cleanupKDBConnection :: "state \<Rightarrow> state" where
  "cleanupKDBConnection s =
     (case cachedConnection s of
        Some h \<Rightarrow>
          s\<lparr>objects := (objects s)[h := (objects s ! h)\<lparr>connected := False\<rparr>],
            cachedConnection := None\<rparr>
      | None \<Rightarrow> s)"

text \<open>
  \<open>KDBConnectionImpl.query\<close>: refuses when the object is not connected; what follows is a
  placeholder in the source, so the remote call is the parameter \<open>remote\<close>, from the query
  text to the error thrown or the value returned. The source as it stands is
  \<open>remote_todo\<close>.
\<close>

definition KDBConnectionImpl_query ::
  "(string \<Rightarrow> Error + 'r) \<Rightarrow> KDBConnectionImpl \<Rightarrow> string \<Rightarrow> Error + 'r" where
  "KDBConnectionImpl_query remote c q =
     (if \<not> connected c then Inl (Error ''Not connected to KDB-X'') else remote q)"

definition remote_todo :: "string \<Rightarrow> Error + 'r" where
  "remote_todo q = Inl (Error ''KDB-X connection not implemented - requires client library'')"

section \<open>The SQL query tool\<close>

datatype status = success | error

text \<open>
  The value the remote call resolves to: \<open>rowCount\<close> and \<open>data\<close> (here
  \<open>reply_data\<close>), either of which may be missing. The tool's answer is
  \<open>QueryResult\<close>; an optional field that is absent is \<open>None\<close>.
\<close>

record 'r QueryReply =
  rowCount :: "int option"
  reply_data :: "'r list option"

record 'r QueryResult =
  status :: status
  data :: "'r list option"
  message :: "string option"
  error_type :: "string option"
  technical_details :: "string option"

definition MAX_ROWS_RETURNED :: nat where
  "MAX_ROWS_RETURNED = 1000"

definition dangerousKeywords :: "string list" where
  "dangerousKeywords = [''INSERT'', ''DROP'', ''DELETE'', ''TRUNCATE'', ''ALTER'', ''CREATE'']"

text \<open>\<open>sqlSelectQuery.toUpperCase().trim()\<close>, over the two built-in functions.\<close>

definition queryUpper :: "(string \<Rightarrow> string) \<Rightarrow> (string \<Rightarrow> string) \<Rightarrow> string \<Rightarrow> string" where
  "queryUpper toUpperCase trim sqlSelectQuery = trim (toUpperCase sqlSelectQuery)"

text \<open>The loop over the keywords: the keyword of the first iteration that throws.\<close>

fun checkKeywords :: "string \<Rightarrow> string list \<Rightarrow> string option" where
  "checkKeywords qu [] = None"
| "checkKeywords qu (keyword # ks) =
     (if str_includes qu keyword \<and> \<not> startsWith qu ''SELECT'' then Some keyword
      else checkKeywords qu ks)"

definition queryText :: string where
  "queryText = ''{r:.s.e x; `rowCount`data!(count r;.j.j y sublist r)}''"

text \<open>The \<open>try\<close> block of \<open>runQueryImpl\<close>: \<open>Inl\<close> is the error it throws.\<close>

definition runQueryTry ::
  "(string \<Rightarrow> string) \<Rightarrow> (string \<Rightarrow> string) \<Rightarrow> connect_step
     \<Rightarrow> (string \<Rightarrow> Error + 'r QueryReply) \<Rightarrow> string \<Rightarrow> KDBConfig \<Rightarrow> state
     \<Rightarrow> (Error + 'r QueryResult) \<times> state \<times> event list" where
  "runQueryTry toUpperCase trim step remote sqlSelectQuery cfg s =
     (case checkKeywords (queryUpper toUpperCase trim sqlSelectQuery) dangerousKeywords of
        Some keyword \<Rightarrow> (Inl (Error (''Query contains dangerous keyword: '' @ keyword)), s, [])
      | None \<Rightarrow>
          (case getKDBConnection step cfg s of
             (Inl e, s1, evs) \<Rightarrow> (Inl e, s1, evs)
           | (Inr h, s1, evs) \<Rightarrow>
               (case KDBConnectionImpl_query remote (objects s1 ! h) queryText of
                  Inl e \<Rightarrow> (Inl e, s1, evs @ [Query h queryText])
                | Inr result \<Rightarrow>
                    (let total = (case rowCount result of Some n \<Rightarrow> n | None \<Rightarrow> 0) in
                     if total = 0 then
                       (Inr \<lparr>status = success, data = Some [],
                             message = Some ''No rows returned'',
                             error_type = None, technical_details = None\<rparr>,
                        s1, evs @ [Query h queryText])
                     else
                       (let rows = (case reply_data result of Some d \<Rightarrow> d | None \<Rightarrow> []) in
                        if total > int MAX_ROWS_RETURNED then
                          (Inr \<lparr>status = success, data = Some rows,
                                message = Some (''Showing first '' @ natToString MAX_ROWS_RETURNED
                                                @ '' of '' @ numberToString total @ '' rows''),
                                error_type = None, technical_details = None\<rparr>,
                           s1,
                           evs @ [Query h queryText,
                                  LogInfo (''Table has '' @ numberToString total
                                           @ '' rows. Query returned truncated data to ''
                                           @ natToString MAX_ROWS_RETURNED @ '' rows.'')])
                        else
                          (Inr \<lparr>status = success, data = Some rows, message = None,
                                error_type = None, technical_details = None\<rparr>,
                           s1,
                           evs @ [Query h queryText,
                                  LogInfo (''Query returned '' @ numberToString total
                                           @ '' rows.'')]))))))"

text \<open>The \<open>catch\<close> block of \<open>runQueryImpl\<close>.\<close>

definition runQueryCatch :: "Error \<Rightarrow> 'r QueryResult \<times> event list" where
  "runQueryCatch e =
     (if error_message e \<noteq> [] \<and> str_includes (error_message e) ''.s.e'' then
        (\<lparr>status = error, data = None,
          message = Some (''It looks like the SQL interface is not loaded in the KDB-X database. ''
                          @ ''Please initialize it by running `.s.init[]` in your KDB-X session, ''
                          @ ''or contact your system administrator.''),
          error_type = Some ''sql_interface_not_loaded'',
          technical_details = Some (toString e)\<rparr>,
         [LogError (''Query failed: '' @ toString e),
          LogError (''It looks like the SQL interface is not loaded. ''
                    @ ''You can load it manually by running .s.init[]:'')])
      else
        (\<lparr>status = error, data = None, message = Some (toString e),
          error_type = None, technical_details = None\<rparr>,
         [LogError (''Query failed: '' @ toString e)]))"

definition runQueryImpl ::
  "(string \<Rightarrow> string) \<Rightarrow> (string \<Rightarrow> string) \<Rightarrow> connect_step
     \<Rightarrow> (string \<Rightarrow> Error + 'r QueryReply) \<Rightarrow> string \<Rightarrow> KDBConfig \<Rightarrow> state
     \<Rightarrow> 'r QueryResult \<times> state \<times> event list" where
  "runQueryImpl toUpperCase trim step remote sqlSelectQuery cfg s =
     (case runQueryTry toUpperCase trim step remote sqlSelectQuery cfg s of
        (Inr res, s1, evs) \<Rightarrow> (res, s1, evs)
      | (Inl e, s1, evs) \<Rightarrow>
          (case runQueryCatch e of (res, evs') \<Rightarrow> (res, s1, evs @ evs')))"

section \<open>Embedding configuration lookup\<close>

record EmbeddingConfig =
  embeddingColumn :: "string option"
  embeddingProvider :: "string option"
  embeddingModel :: "string option"
  sparseEmbeddingColumn :: "string option"
  sparseIndexName :: "string option"
  sparseTokenizerProvider :: "string option"
  sparseTokenizerModel :: "string option"

text \<open>
  Reading and parsing the CSV file is the parameter \<open>readCsv\<close>: for a path, the text of the
  exception thrown, or the file's records as the parser produces them before the \<open>cast\<close>
  option is applied (column name to field text). \<open>cast\<close> is the callback the source hands
  to the parser: the empty field becomes \<open>null\<close>.
\<close>

type_synonym csv_reader = "string \<Rightarrow> string + (string \<rightharpoonup> string) list"

definition cast :: "string \<Rightarrow> string option" where
  "cast v = (if v = [] then None else Some v)"

definition getCsvData :: "csv_reader \<Rightarrow> string \<Rightarrow> state \<Rightarrow> (Error + csv_record list) \<times> state" where
  "getCsvData readCsv csvPath s =
     (case csvCache s csvPath of
        Some records \<Rightarrow> (Inr records, s)
      | None \<Rightarrow>
          (case readCsv csvPath of
             Inl e \<Rightarrow> (Inl (Error (''Failed to read embeddings CSV: '' @ e)), s)
           | Inr raw \<Rightarrow>
               (let records = map (\<lambda>r. map_option cast \<circ> r) raw
                in (Inr records, s\<lparr>csvCache := (csvCache s)(csvPath \<mapsto> records)\<rparr>))))"

text \<open>\<open>orNull v\<close> is \<open>v || null\<close> on a cell of a record.\<close>

definition orNull :: "string option option \<Rightarrow> string option" where
  "orNull v = (case v of Some (Some x) \<Rightarrow> if x = [] then None else Some x | _ \<Rightarrow> None)"

definition quoted :: "string \<Rightarrow> string" where
  "quoted x = [CHR 0x27] @ x @ [CHR 0x27]"

definition matches :: "string \<Rightarrow> csv_record \<Rightarrow> bool" where
  "matches tableName row = (row ''table'' = Some (Some tableName))"

definition getEmbeddingConfig ::
  "csv_reader \<Rightarrow> string \<Rightarrow> KDBConfig \<Rightarrow> state \<Rightarrow> (Error + EmbeddingConfig) \<times> state" where
  "getEmbeddingConfig readCsv tableName cfg s =
     (case getCsvData readCsv (embeddingCsvPath cfg) s of
        (Inl e, s1) \<Rightarrow> (Inl e, s1)
      | (Inr df, s1) \<Rightarrow>
          (let matchingRows = filter (matches tableName) df in
           if length matchingRows = 0 then
             (Inl (Error (''No configuration found for table='' @ quoted tableName)), s1)
           else if length matchingRows > 1 then
             (Inl (Error (''Multiple configurations found for table='' @ quoted tableName
                          @ ''. Please ensure each table has only one configuration row.'')), s1)
           else
             (let row = matchingRows ! 0 in
              (Inr \<lparr>embeddingColumn = orNull (row ''embedding_column''),
                    embeddingProvider = orNull (row ''embedding_provider''),
                    embeddingModel = orNull (row ''embedding_model''),
                    sparseEmbeddingColumn = orNull (row ''sparse_embedding_column''),
                    sparseIndexName = orNull (row ''sparse_index_name''),
                    sparseTokenizerProvider = orNull (row ''sparse_tokenizer_provider''),
                    sparseTokenizerModel = orNull (row ''sparse_tokenizer_model'')\<rparr>, s1))))"

section \<open>Result formatting: vector columns\<close>

text \<open>
  A row is an object: its own properties in enumeration order. A cell is \<open>null\<close>, a
  number, a string, a temporal value (a \<open>Date\<close> or an object with \<open>toISOString\<close>, carrying
  the text that method returns) or a vector.
\<close>

datatype cell = Null | Num int | Str string | Temporal string | Vector "int list"

type_synonym TableRow = "(string \<times> cell) list"

definition hasKey :: "string \<Rightarrow> TableRow \<Rightarrow> bool" where
  "hasKey c row = (c \<in> set (map fst row))"

definition deleteKey :: "string \<Rightarrow> TableRow \<Rightarrow> TableRow" where
  "deleteKey c row = filter (\<lambda>(key, v). key \<noteq> c) row"

text \<open>
  One guarded \<open>delete\<close> of the \<open>map\<close> callback: \<open>col && col in newRow\<close>, then the deletion and
  its log line.
\<close>

definition removeColumn :: "string \<Rightarrow> string option \<Rightarrow> TableRow \<Rightarrow> TableRow \<times> event list" where
  "removeColumn what col newRow =
     (case col of
        Some c \<Rightarrow>
          if c \<noteq> [] \<and> hasKey c newRow then
            (deleteKey c newRow,
             [LogDebug (''Removed '' @ what @ '' column '' @ quoted c @ '' from results'')])
          else (newRow, [])
      | None \<Rightarrow> (newRow, []))"

definition stripRow :: "EmbeddingConfig \<Rightarrow> TableRow \<Rightarrow> TableRow \<times> event list" where
  "stripRow ec row =
     (case removeColumn ''embedding'' (embeddingColumn ec) row of
        (newRow1, evs1) \<Rightarrow>
          (case removeColumn ''sparse embedding'' (sparseEmbeddingColumn ec) newRow1 of
             (newRow2, evs2) \<Rightarrow> (newRow2, evs1 @ evs2)))"

definition removeVectorColumns ::
  "csv_reader \<Rightarrow> TableRow list \<Rightarrow> string \<Rightarrow> KDBConfig \<Rightarrow> state
     \<Rightarrow> TableRow list \<times> state \<times> event list" where
  "removeVectorColumns readCsv rws tableName cfg s =
     (case getEmbeddingConfig readCsv tableName cfg s of
        (Inr ec, s1) \<Rightarrow>
          (map (\<lambda>row. fst (stripRow ec row)) rws, s1,
           concat (map (\<lambda>row. snd (stripRow ec row)) rws))
      | (Inl e, s1) \<Rightarrow>
          (rws, s1,
           [LogDebug (''Could not get embedding config for table '' @ tableName @ '': ''
                      @ toString e)]))"

text \<open>
  The same function over a store of row objects, where aliasing is visible: a row is an
  address into the store (its index), \<open>{ ...row }\<close> allocates a copy at a new address and
  \<open>delete\<close> updates the object at the address it is given. The log lines are those of
  \<open>removeVectorColumns\<close> and are left out.
\<close>

definition deleteAt :: "string option \<Rightarrow> nat \<Rightarrow> TableRow list \<Rightarrow> TableRow list" where
  "deleteAt col a store =
     (case col of
        Some c \<Rightarrow>
          if c \<noteq> [] \<and> hasKey c (store ! a) then store[a := deleteKey c (store ! a)]
          else store
      | None \<Rightarrow> store)"

fun mapRows_store :: "EmbeddingConfig \<Rightarrow> nat list \<Rightarrow> TableRow list \<Rightarrow> nat list \<times> TableRow list" where
  "mapRows_store ec [] store = ([], store)"
| "mapRows_store ec (row # rws) store =
     (let newRow = length store;
          store1 = store @ [store ! row];
          store2 = deleteAt (embeddingColumn ec) newRow store1;
          store3 = deleteAt (sparseEmbeddingColumn ec) newRow store2
      in (case mapRows_store ec rws store3 of
            (out, store') \<Rightarrow> (newRow # out, store')))"

definition removeVectorColumns_store ::
  "csv_reader \<Rightarrow> nat list \<Rightarrow> string \<Rightarrow> KDBConfig \<Rightarrow> state \<Rightarrow> TableRow list
     \<Rightarrow> nat list \<times> TableRow list \<times> state" where
  "removeVectorColumns_store readCsv rws tableName cfg s store =
     (case getEmbeddingConfig readCsv tableName cfg s of
        (Inr ec, s1) \<Rightarrow>
          (case mapRows_store ec rws store of (out, store') \<Rightarrow> (out, store', s1))
      | (Inl e, s1) \<Rightarrow> (rws, store, s1))"

definition normalizeCell :: "cell \<Rightarrow> cell" where
  "normalizeCell v = (case v of Temporal txt \<Rightarrow> Str txt | _ \<Rightarrow> v)"

definition normalizeSearchResult ::
  "csv_reader \<Rightarrow> TableRow list \<Rightarrow> string \<Rightarrow> KDBConfig \<Rightarrow> state
     \<Rightarrow> TableRow list \<times> state \<times> event list" where
  "normalizeSearchResult readCsv rws tableName cfg s =
     removeVectorColumns readCsv (map (map (\<lambda>(key, v). (key, normalizeCell v))) rws)
       tableName cfg s"

section \<open>Hybrid search\<close>

text \<open>
  An embedding provider has two operations, each of which may throw; the provider registry
  maps a name to the provider its factory creates. The vector types are left open.
\<close>

record ('v, 'w) EmbeddingProvider =
  denseEmbed :: "string \<Rightarrow> string \<Rightarrow> Error + 'v"
  sparseEmbed :: "string \<Rightarrow> string \<Rightarrow> Error + 'w"

definition getProvider ::
  "(string \<rightharpoonup> ('v, 'w) EmbeddingProvider) \<Rightarrow> string \<Rightarrow> Error + ('v, 'w) EmbeddingProvider" where
  "getProvider providerRegistry name =
     (case providerRegistry name of
        None \<Rightarrow> Inl (Error (''Unknown provider: '' @ name))
      | Some provider \<Rightarrow> Inr provider)"

text \<open>
  \<open>SearchResult\<close>; its \<open>status\<close> and \<open>message\<close> fields are \<open>search_status\<close> and
  \<open>search_message\<close> here.
\<close>

record SearchResult =
  search_status :: status
  search_message :: "string option"
  table :: "string option"
  recordsCount :: "nat option"
  records :: "TableRow list option"

text \<open>\<open>falsy v\<close> is \<open>!v\<close> on a field that is a string or \<open>null\<close>; \<open>text_of\<close> reads a field.\<close>

definition falsy :: "string option \<Rightarrow> bool" where
  "falsy v = (case v of None \<Rightarrow> True | Some x \<Rightarrow> x = [])"

definition rows_of :: "TableRow list option \<Rightarrow> TableRow list" where
  "rows_of result = (case result of Some rws \<Rightarrow> rws | None \<Rightarrow> [])"

definition text_of :: "string option \<Rightarrow> string" where
  "text_of v = (case v of Some x \<Rightarrow> x | None \<Rightarrow> [])"

definition hybridQueryText :: string where
  "hybridQueryText = ''{[args] .ai.hybrid.rrf[(.ai.flat.search[...];.ai.bm25.search[...]);60]}''"

text \<open>
  The provider part of \<open>kdbxHybridSearchImpl\<close>: both providers are looked up, then the
  dense and the sparse embedding of the query are computed.
\<close>

definition hybridEmbed ::
  "(string \<rightharpoonup> ('v, 'w) EmbeddingProvider) \<Rightarrow> EmbeddingConfig \<Rightarrow> string
     \<Rightarrow> (Error + 'v \<times> 'w) \<times> event list" where
  "hybridEmbed providerRegistry ec query =
     (let provName = text_of (embeddingProvider ec);
          model = text_of (embeddingModel ec);
          sparseName = (if falsy (sparseTokenizerProvider ec) then provName
                        else text_of (sparseTokenizerProvider ec));
          sparseModel = (if falsy (sparseTokenizerModel ec) then model
                         else text_of (sparseTokenizerModel ec))
      in case getProvider providerRegistry provName of
           Inl e \<Rightarrow> (Inl e, [GetProvider provName])
         | Inr denseProvider \<Rightarrow>
             (case (if sparseTokenizerProvider ec = embeddingProvider ec
                    then (Inr denseProvider, [GetProvider provName])
                    else (getProvider providerRegistry sparseName,
                          [GetProvider provName, GetProvider sparseName])) of
                (Inl e, evs) \<Rightarrow> (Inl e, evs)
              | (Inr sparseProvider, evs) \<Rightarrow>
                  (case denseEmbed denseProvider query model of
                     Inl e \<Rightarrow> (Inl e, evs @ [DenseEmbed provName query model])
                   | Inr queryVector \<Rightarrow>
                       (case sparseEmbed sparseProvider query sparseModel of
                          Inl e \<Rightarrow>
                            (Inl e, evs @ [DenseEmbed provName query model,
                                           SparseEmbed sparseName query sparseModel])
                        | Inr querySparse \<Rightarrow>
                            (Inr (queryVector, querySparse),
                             evs @ [DenseEmbed provName query model,
                                    SparseEmbed sparseName query sparseModel])))))"

text \<open>The \<open>try\<close> block of \<open>kdbxHybridSearchImpl\<close>; \<open>n\<close> is the optional result count.\<close>

definition hybridSearchTry ::
  "(string \<rightharpoonup> ('v, 'w) EmbeddingProvider) \<Rightarrow> connect_step
     \<Rightarrow> (string \<Rightarrow> Error + TableRow list option) \<Rightarrow> csv_reader
     \<Rightarrow> string \<Rightarrow> string \<Rightarrow> nat option \<Rightarrow> KDBConfig \<Rightarrow> state
     \<Rightarrow> (Error + SearchResult) \<times> state \<times> event list" where
  "hybridSearchTry providerRegistry step remote readCsv tableName query n cfg s =
     (case getEmbeddingConfig readCsv tableName cfg s of
        (Inl e, s1) \<Rightarrow> (Inl e, s1, [])
      | (Inr ec, s1) \<Rightarrow>
          if falsy (sparseIndexName ec) then
            (Inr \<lparr>search_status = error,
                  search_message = Some ''The requested table does not have sparse index'',
                  table = Some tableName, recordsCount = None, records = None\<rparr>,
             s1,
             [LogInfo (''Error performing hybrid search on table '' @ tableName
                       @ '': Missing sparse index'')])
          else if falsy (embeddingProvider ec) \<or> falsy (embeddingModel ec) then
            (Inl (Error (''Table '' @ tableName @ '' does not have embedding configuration'')),
             s1, [])
          else
            (case hybridEmbed providerRegistry ec query of
               (Inl e, evs1) \<Rightarrow> (Inl e, s1, evs1)
             | (Inr vectors, evs1) \<Rightarrow>
                 (case getKDBConnection step cfg s1 of
                    (Inl e, s2, evs2) \<Rightarrow> (Inl e, s2, evs1 @ evs2)
                  | (Inr h, s2, evs2) \<Rightarrow>
                      (case KDBConnectionImpl_query remote (objects s2 ! h) hybridQueryText of
                         Inl e \<Rightarrow> (Inl e, s2, evs1 @ evs2 @ [Query h hybridQueryText])
                       | Inr result \<Rightarrow>
                           if result = None \<or> result = Some [] then
                             (Inr \<lparr>search_status = success,
                                   search_message =
                                     Some (''No results found - the sparse search returned ''
                                           @ ''no matches for the query''),
                                   table = Some tableName, recordsCount = Some 0,
                                   records = Some []\<rparr>,
                              s2,
                              evs1 @ evs2 @
                              [Query h hybridQueryText,
                               LogInfo (''Hybrid search on table '' @ tableName
                                        @ '' returned no results - sparse search may have ''
                                        @ ''found no matches'')])
                           else
                             (case normalizeSearchResult readCsv (rows_of result)
                                     tableName cfg s2 of
                                (normalized, s3, evs3) \<Rightarrow>
                                  (Inr \<lparr>search_status = success, search_message = None,
                                        table = Some tableName,
                                        recordsCount = Some (length normalized),
                                        records = Some normalized\<rparr>,
                                   s3, evs1 @ evs2 @ [Query h hybridQueryText] @ evs3))))))"

definition kdbxHybridSearchImpl ::
  "(string \<rightharpoonup> ('v, 'w) EmbeddingProvider) \<Rightarrow> connect_step
     \<Rightarrow> (string \<Rightarrow> Error + TableRow list option) \<Rightarrow> csv_reader
     \<Rightarrow> string \<Rightarrow> string \<Rightarrow> nat option \<Rightarrow> KDBConfig \<Rightarrow> state
     \<Rightarrow> SearchResult \<times> state \<times> event list" where
  "kdbxHybridSearchImpl providerRegistry step remote readCsv tableName query n cfg s =
     (case hybridSearchTry providerRegistry step remote readCsv tableName query n cfg s of
        (Inr res, s1, evs) \<Rightarrow> (res, s1, evs)
      | (Inl e, s1, evs) \<Rightarrow>
          (\<lparr>search_status = error, search_message = Some (toString e),
            table = Some tableName, recordsCount = None, records = None\<rparr>,
           s1,
           evs @ [LogError (''Error performing search on table '' @ tableName @ '': ''
                            @ toString e)]))"

section \<open>Notions used in the statements\<close>

text \<open>
  \<open>hasValidCache\<close> is the guard of the early return of \<open>getKDBConnection\<close>. \<open>wf_state\<close>
  says that the cached address is the address of an object. \<open>failTrace step cfg a n\<close> is
  what the loop does on the failing attempts \<open>a\<close>, ..., \<open>n - 1\<close>.
\<close>

definition hasValidCache :: "state \<Rightarrow> bool" where
  "hasValidCache s = (case cachedConnection s of Some h \<Rightarrow> isConnected s h | None \<Rightarrow> False)"

definition wf_state :: "state \<Rightarrow> bool" where
  "wf_state s = (case cachedConnection s of Some h \<Rightarrow> h < length (objects s) | None \<Rightarrow> True)"

definition failTrace :: "connect_step \<Rightarrow> KDBConfig \<Rightarrow> nat \<Rightarrow> nat \<Rightarrow> event list" where
  "failTrace step cfg a n = concat (map (\<lambda>i. failEvents cfg i (projl (step i))) [a..<n])"

text \<open>
  \<open>cell_value\<close> reads a cell as it is (a missing cell as \<open>null\<close>). A record is clean
  when no cell holds the empty string, which \<open>cast\<close> ensures; \<open>clean_cache\<close> says so of
  every cached record.
\<close>

definition cell_value :: "string option option \<Rightarrow> string option" where
  "cell_value v = (case v of Some (Some x) \<Rightarrow> Some x | _ \<Rightarrow> None)"

definition clean_record :: "csv_record \<Rightarrow> bool" where
  "clean_record row = (\<forall>c. row c \<noteq> Some (Some []))"

definition clean_cache :: "state \<Rightarrow> bool" where
  "clean_cache s = (\<forall>p recs. csvCache s p = Some recs \<longrightarrow> (\<forall>row \<in> set recs. clean_record row))"

text \<open>
  \<open>removed ec key\<close> holds of the columns that \<open>removeVectorColumns\<close> deletes under the
  configuration \<open>ec\<close>; \<open>keptColumns\<close> keeps the other columns of a row, in order.
\<close>

definition removed :: "EmbeddingConfig \<Rightarrow> string \<Rightarrow> bool" where
  "removed ec key =
     (key \<noteq> [] \<and> (embeddingColumn ec = Some key \<or> sparseEmbeddingColumn ec = Some key))"

definition keptColumns :: "EmbeddingConfig \<Rightarrow> TableRow \<Rightarrow> TableRow" where
  "keptColumns ec row = filter (\<lambda>(key, v). \<not> removed ec key) row"

text \<open>
  Concrete inputs for the examples: attempts that throw a time-out error every time
  (\<open>connect_refused\<close>) or the first time only (\<open>connect_second\<close>); a logger whose \<open>info\<close>
  throws on the line \<open>Connected to Q/KDB-X\<close>, so that every attempt fails
  (\<open>logger_throws\<close>); the state after a first successful connect; a configuration table with one record for \<open>docs\<close> (no sparse
  index), two for \<open>dup\<close> and none for \<open>trades\<close>; a provider registry; a remote search
  result; a store with one row object.
\<close>

definition connect_refused :: connect_step where
  "connect_refused n = Inl (Error ''connect ETIMEDOUT'')"


definition connect_second :: connect_step where
  "connect_second n = (if n < 2 then Inl (Error ''connect ETIMEDOUT'') else Inr True)"

definition connectedState :: state where
  "connectedState =
     \<lparr>cachedConnection = Some 0,
      objects = [\<lparr>connected = True, config = defaultKDBConfig\<rparr>],
      csvCache = Map.empty\<rparr>"

definition csv_example_rows :: "(string \<rightharpoonup> string) list" where
  "csv_example_rows =
     [map_of [(''table'', ''docs''), (''embedding_column'', ''vec''),
              (''embedding_provider'', ''openai''), (''embedding_model'', ''small''),
              (''sparse_embedding_column'', []), (''sparse_index_name'', []),
              (''sparse_tokenizer_provider'', []), (''sparse_tokenizer_model'', [])],
      map_of [(''table'', ''dup''), (''embedding_column'', ''a'')],
      map_of [(''table'', ''dup''), (''embedding_column'', ''b'')]]"

definition csv_example :: csv_reader where
  "csv_example path = Inr csv_example_rows"

definition provider_example :: "(nat list, (string \<times> nat) list) EmbeddingProvider" where
  "provider_example =
     \<lparr>denseEmbed = (\<lambda>text model. Inr [1, 2, 3]),
      sparseEmbed = (\<lambda>text model. Inr [(''7'', 1)])\<rparr>"

definition registry_example ::
  "string \<rightharpoonup> (nat list, (string \<times> nat) list) EmbeddingProvider" where
  "registry_example = [''openai'' \<mapsto> provider_example]"

definition remote_rows :: "string \<Rightarrow> Error + TableRow list option" where
  "remote_rows q = Inr (Some [[(''id'', Num 1), (''vec'', Vector [1, 2])]])"

definition store_example :: "TableRow list" where
  "store_example = [[(''id'', Num 1), (''vec'', Vector [1, 2]), (''body'', Str ''kdb'')]]"

section \<open>Properties of the string primitives\<close>

declare connectLoop.simps [simp del]

declare digits.simps [simp del]

lemma startsWith_prefix: "startsWith s p = prefix p s"
  by (induction s p rule: startsWith.induct) auto

lemma str_includes_sublist: "str_includes s p = sublist p s"
  by (induction s) (auto simp: startsWith_prefix sublist_Cons_right)

section \<open>The safety gate of the SQL query tool\<close>

lemma checkKeywords_rejects:
  "\<exists>kw \<in> set ks. str_includes qu kw \<Longrightarrow> \<not> startsWith qu ''SELECT''
     \<Longrightarrow> \<exists>kw \<in> set ks. checkKeywords qu ks = Some kw"
  by (induction ks) auto

lemma checkKeywords_passes:
  "startsWith qu ''SELECT'' \<or> (\<forall>kw \<in> set ks. \<not> str_includes qu kw)
     \<Longrightarrow> checkKeywords qu ks = None"
  by (induction ks) auto

lemma gate_message_plain:
  "kw \<in> set dangerousKeywords \<Longrightarrow> \<not> str_includes (''Query contains dangerous keyword: '' @ kw) ''.s.e''"
  by (auto simp: dangerousKeywords_def)

lemma runQueryImpl_rejected:
  assumes "checkKeywords (queryUpper toUpperCase trim q) dangerousKeywords = Some kw"
    and "kw \<in> set dangerousKeywords"
  shows "runQueryImpl toUpperCase trim step remote q cfg s =
           (\<lparr>status = error, data = None,
             message = Some (''Error: Query contains dangerous keyword: '' @ kw),
             error_type = None, technical_details = None\<rparr>,
            s, [LogError (''Query failed: Error: Query contains dangerous keyword: '' @ kw)])"
  using assms gate_message_plain[OF assms(2)]
  by (simp add: runQueryImpl_def runQueryTry_def runQueryCatch_def toString_def)

lemma runQueryTry_reaches_query:
  assumes "checkKeywords (queryUpper toUpperCase trim q) dangerousKeywords = None"
    and "getKDBConnection step cfg s = (Inr h, s1, evs)"
  shows "\<exists>rest. snd (snd (runQueryTry toUpperCase trim step remote q cfg s))
                  = evs @ Query h queryText # rest"
proof (cases "KDBConnectionImpl_query remote (objects s1 ! h) queryText")
  case (Inl e)
  with assms show ?thesis by (simp add: runQueryTry_def)
next
  case (Inr result)
  with assms show ?thesis by (simp add: runQueryTry_def Let_def)
qed

lemma runQueryImpl_events:
  "\<exists>rest. snd (snd (runQueryImpl toUpperCase trim step remote q cfg s))
            = snd (snd (runQueryTry toUpperCase trim step remote q cfg s)) @ rest"
proof -
  obtain r s1 evs where t: "runQueryTry toUpperCase trim step remote q cfg s = (r, s1, evs)"
    by (cases "runQueryTry toUpperCase trim step remote q cfg s") auto
  show ?thesis
  proof (cases r)
    case (Inl e)
    obtain res evs' where "runQueryCatch e = ((res :: 'a QueryResult), evs')"
      by (cases "runQueryCatch e :: 'a QueryResult \<times> event list") auto
    with t Inl show ?thesis by (simp add: runQueryImpl_def)
  next
    case (Inr res)
    with t show ?thesis by (simp add: runQueryImpl_def)
  qed
qed

lemma runQueryImpl_reaches_query:
  assumes "checkKeywords (queryUpper toUpperCase trim q) dangerousKeywords = None"
    and "getKDBConnection step cfg s = (Inr h, s1, evs)"
  shows "\<exists>rest. snd (snd (runQueryImpl toUpperCase trim step remote q cfg s))
                  = evs @ Query h queryText # rest"
  using runQueryTry_reaches_query [OF assms, of remote]
    runQueryImpl_events [of toUpperCase trim step remote q cfg s]
  by auto

lemma connectLoop_todo:
  "\<exists>s' evs. connectLoop connect_todo cfg h 1 le s = (Inr h, s', evs)"
  by (subst connectLoop.simps) (simp add: connect_todo_def)

lemma connectFresh_todo:
  "\<exists>h s' evs. connectFresh connect_todo cfg s = (Inr h, s', evs)"
proof -
  obtain s' evs where
    "connectLoop connect_todo cfg (length (objects s)) 1 None
       (s\<lparr>objects := objects s @ [\<lparr>connected = False, config = cfg\<rparr>]\<rparr>) = (Inr (length (objects s)), s', evs)"
    using connectLoop_todo by blast
  then show ?thesis by (simp add: connectFresh_def)
qed

lemma getKDBConnection_todo:
  "\<exists>h s' evs. getKDBConnection connect_todo cfg s = (Inr h, s', evs)"
  using connectFresh_todo [of cfg s]
  by (cases "cachedConnection s") (auto simp: getKDBConnection_def)

text \<open>
  Claim C1. The gate rejects exactly the queries whose upper-cased, trimmed text contains
  one of the keywords INSERT, DROP, DELETE, TRUNCATE, ALTER, CREATE and does not start with
  SELECT, whatever \<open>toUpperCase\<close> and \<open>trim\<close> compute. Such a query is answered with
  status \<open>error\<close>; the state is untouched and the only effect is the error log line, so
  neither the connection nor the remote call is reached. Every other query, that is one
  whose upper-cased, trimmed text starts with SELECT (whatever it contains) or contains
  none of the keywords, passes the gate: every connection that \<open>getKDBConnection\<close> returns
  is then handed the remote call, and with the connection step as the source has it the call
  is always reached.
\<close>

theorem safety_gate:
  "((\<exists>kw \<in> set dangerousKeywords. str_includes (queryUpper toUpperCase trim q) kw)
      \<and> \<not> startsWith (queryUpper toUpperCase trim q) ''SELECT''
     \<longrightarrow> (\<exists>kw \<in> set dangerousKeywords.
            runQueryImpl toUpperCase trim step remote q cfg s =
              (\<lparr>status = error, data = None,
                message = Some (''Error: Query contains dangerous keyword: '' @ kw),
                error_type = None, technical_details = None\<rparr>,
               s, [LogError (''Query failed: Error: Query contains dangerous keyword: '' @ kw)])))
   \<and> (startsWith (queryUpper toUpperCase trim q) ''SELECT''
        \<or> (\<forall>kw \<in> set dangerousKeywords. \<not> str_includes (queryUpper toUpperCase trim q) kw)
     \<longrightarrow> checkKeywords (queryUpper toUpperCase trim q) dangerousKeywords = None
         \<and> (\<forall>h s1 evs. getKDBConnection step cfg s = (Inr h, s1, evs)
               \<longrightarrow> (\<exists>rest. snd (snd (runQueryImpl toUpperCase trim step remote q cfg s))
                              = evs @ Query h queryText # rest))
         \<and> (\<exists>ev \<in> set (snd (snd (runQueryImpl toUpperCase trim connect_todo remote q cfg s))).
               isQuery ev))"
proof (intro conjI impI allI)
  assume "(\<exists>kw \<in> set dangerousKeywords. str_includes (queryUpper toUpperCase trim q) kw)
            \<and> \<not> startsWith (queryUpper toUpperCase trim q) ''SELECT''"
  then obtain kw where "kw \<in> set dangerousKeywords"
      and "checkKeywords (queryUpper toUpperCase trim q) dangerousKeywords = Some kw"
    using checkKeywords_rejects by blast
  then show "\<exists>kw \<in> set dangerousKeywords.
            runQueryImpl toUpperCase trim step remote q cfg s =
              (\<lparr>status = error, data = None,
                message = Some (''Error: Query contains dangerous keyword: '' @ kw),
                error_type = None, technical_details = None\<rparr>,
               s, [LogError (''Query failed: Error: Query contains dangerous keyword: '' @ kw)])"
    using runQueryImpl_rejected by blast
next
  assume "startsWith (queryUpper toUpperCase trim q) ''SELECT''
        \<or> (\<forall>kw \<in> set dangerousKeywords. \<not> str_includes (queryUpper toUpperCase trim q) kw)"
  then show "checkKeywords (queryUpper toUpperCase trim q) dangerousKeywords = None"
    by (rule checkKeywords_passes)
next
  fix h s1 evs
  assume "startsWith (queryUpper toUpperCase trim q) ''SELECT''
        \<or> (\<forall>kw \<in> set dangerousKeywords. \<not> str_includes (queryUpper toUpperCase trim q) kw)"
    and conn: "getKDBConnection step cfg s = (Inr h, s1, evs)"
  then have "checkKeywords (queryUpper toUpperCase trim q) dangerousKeywords = None"
    by (intro checkKeywords_passes)
  from runQueryImpl_reaches_query [OF this conn]
  show "\<exists>rest. snd (snd (runQueryImpl toUpperCase trim step remote q cfg s))
                 = evs @ Query h queryText # rest" .
next
  assume "startsWith (queryUpper toUpperCase trim q) ''SELECT''
        \<or> (\<forall>kw \<in> set dangerousKeywords. \<not> str_includes (queryUpper toUpperCase trim q) kw)"
  then have pass: "checkKeywords (queryUpper toUpperCase trim q) dangerousKeywords = None"
    by (rule checkKeywords_passes)
  obtain h s1 evs where conn: "getKDBConnection connect_todo cfg s = (Inr h, s1, evs)"
    using getKDBConnection_todo by blast
  from runQueryImpl_reaches_query [OF pass conn, of remote]
  obtain rest where "snd (snd (runQueryImpl toUpperCase trim connect_todo remote q cfg s))
                       = evs @ Query h queryText # rest"
    by auto
  then show "\<exists>ev \<in> set (snd (snd (runQueryImpl toUpperCase trim connect_todo remote q cfg s))).
               isQuery ev"
    by auto
qed

lemma queryUpper_drop:
  "queryUpper asciiUpperCase asciiTrim ''drop table trades'' = ''DROP TABLE TRADES''"
  by (simp add: queryUpper_def asciiTrim_def asciiUpperCase_def asciiUpperChar_def
        asciiWhiteSpace_def)

lemma queryUpper_select:
  "queryUpper asciiUpperCase asciiTrim '' select * from dropped'' = ''SELECT * FROM DROPPED''"
  by (simp add: queryUpper_def asciiTrim_def asciiUpperCase_def asciiUpperChar_def
        asciiWhiteSpace_def)

lemma queryUpper_show:
  "queryUpper asciiUpperCase asciiTrim ''show tables'' = ''SHOW TABLES''"
  by (simp add: queryUpper_def asciiTrim_def asciiUpperCase_def asciiUpperChar_def
        asciiWhiteSpace_def)

theorem safety_gate_witness:
  "((\<exists>kw \<in> set dangerousKeywords.
        str_includes (queryUpper asciiUpperCase asciiTrim ''drop table trades'') kw)
      \<and> \<not> startsWith (queryUpper asciiUpperCase asciiTrim ''drop table trades'') ''SELECT'')
   \<and> (\<exists>kw \<in> set dangerousKeywords.
         runQueryImpl asciiUpperCase asciiTrim connect_todo
             (remote_todo :: string \<Rightarrow> Error + nat QueryReply)
             ''drop table trades'' defaultKDBConfig initialState =
           (\<lparr>status = error, data = None,
             message = Some (''Error: Query contains dangerous keyword: '' @ kw),
             error_type = None, technical_details = None\<rparr>,
            initialState,
            [LogError (''Query failed: Error: Query contains dangerous keyword: '' @ kw)]))
   \<and> startsWith (queryUpper asciiUpperCase asciiTrim '' select * from dropped'') ''SELECT''
   \<and> str_includes (queryUpper asciiUpperCase asciiTrim '' select * from dropped'') ''DROP''
   \<and> checkKeywords (queryUpper asciiUpperCase asciiTrim '' select * from dropped'')
         dangerousKeywords = None
   \<and> (\<exists>ev \<in> set (snd (snd (runQueryImpl asciiUpperCase asciiTrim connect_todo
                                  (remote_todo :: string \<Rightarrow> Error + nat QueryReply)
                                  '' select * from dropped'' defaultKDBConfig initialState))).
         isQuery ev)
   \<and> \<not> startsWith (queryUpper asciiUpperCase asciiTrim ''show tables'') ''SELECT''
   \<and> checkKeywords (queryUpper asciiUpperCase asciiTrim ''show tables'') dangerousKeywords = None
   \<and> (\<exists>ev \<in> set (snd (snd (runQueryImpl asciiUpperCase asciiTrim connect_todo
                                  (remote_todo :: string \<Rightarrow> Error + nat QueryReply)
                                  ''show tables'' defaultKDBConfig initialState))).
         isQuery ev)"
proof -
  have rej: "(\<exists>kw \<in> set dangerousKeywords.
        str_includes (queryUpper asciiUpperCase asciiTrim ''drop table trades'') kw)
      \<and> \<not> startsWith (queryUpper asciiUpperCase asciiTrim ''drop table trades'') ''SELECT''"
    by (simp add: queryUpper_drop dangerousKeywords_def)
  have sel: "startsWith (queryUpper asciiUpperCase asciiTrim '' select * from dropped'') ''SELECT''"
    by (simp add: queryUpper_select)
  have inc: "str_includes (queryUpper asciiUpperCase asciiTrim '' select * from dropped'') ''DROP''"
    by (simp add: queryUpper_select)
  have none: "\<forall>kw \<in> set dangerousKeywords.
        \<not> str_includes (queryUpper asciiUpperCase asciiTrim ''show tables'') kw"
    by (simp add: queryUpper_show dangerousKeywords_def)
  have nosel: "\<not> startsWith (queryUpper asciiUpperCase asciiTrim ''show tables'') ''SELECT''"
    by (simp add: queryUpper_show)
  from rej sel inc none nosel
    safety_gate [of asciiUpperCase asciiTrim "''drop table trades''" connect_todo
                    "remote_todo :: string \<Rightarrow> Error + nat QueryReply" defaultKDBConfig initialState]
    safety_gate [of asciiUpperCase asciiTrim "'' select * from dropped''" connect_todo
                    "remote_todo :: string \<Rightarrow> Error + nat QueryReply" defaultKDBConfig initialState]
    safety_gate [of asciiUpperCase asciiTrim "''show tables''" connect_todo
                    "remote_todo :: string \<Rightarrow> Error + nat QueryReply" defaultKDBConfig initialState]
  show ?thesis by blast
qed

section \<open>The connection loop\<close>

lemma failTrace_empty [simp]: "failTrace step cfg a a = []"
  by (simp add: failTrace_def)

lemma failTrace_step:
  "a < n \<Longrightarrow> failTrace step cfg a n = failEvents cfg a (projl (step a)) @ failTrace step cfg (Suc a) n"
  by (simp add: failTrace_def upt_conv_Cons)

lemma attempts_append: "attempts (xs @ ys) = attempts xs @ attempts ys"
  by (induction xs rule: attempts.induct) auto

lemma sleeps_append: "sleeps (xs @ ys) = sleeps xs @ sleeps ys"
  by (induction xs rule: sleeps.induct) auto

lemma attempts_failEvents: "attempts (failEvents cfg i e) = [i]"
  by (simp add: failEvents_def)

lemma sleeps_failEvents:
  "sleeps (failEvents cfg i e) = (if i < retry cfg + 1 then [1000 * i] else [])"
  by (simp add: failEvents_def)

lemma attempts_failTrace: "attempts (failTrace step cfg a n) = [a..<n]"
proof (induction "n - a" arbitrary: a)
  case 0
  then show ?case by (simp add: failTrace_def)
next
  case (Suc d)
  then have "a < n" by simp
  with Suc show ?case
    by (simp add: failTrace_step attempts_append attempts_failEvents upt_conv_Cons)
qed

lemma sleeps_failTrace:
  "n \<le> retry cfg + 1 \<Longrightarrow> sleeps (failTrace step cfg a n) = map (\<lambda>i. 1000 * i) [a..<n]"
proof (induction "n - a" arbitrary: a)
  case 0
  then show ?case by (simp add: failTrace_def)
next
  case (Suc d)
  then have "a < n" by simp
  with Suc show ?case
    by (simp add: failTrace_step sleeps_append sleeps_failEvents upt_conv_Cons)
qed

lemma failTrace_snoc:
  "a \<le> n \<Longrightarrow> failTrace step cfg a (Suc n) = failTrace step cfg a n @ failEvents cfg n (projl (step n))"
  by (simp add: failTrace_def)

lemma sleeps_failTrace_all:
  "sleeps (failTrace step cfg a (retry cfg + 2)) = map (\<lambda>i. 1000 * i) [a..<retry cfg + 1]"
proof (cases "a \<le> retry cfg + 1")
  case True
  have "failTrace step cfg a (Suc (retry cfg + 1)) =
          failTrace step cfg a (retry cfg + 1)
          @ failEvents cfg (retry cfg + 1) (projl (step (retry cfg + 1)))"
    using True by (rule failTrace_snoc)
  moreover have "sleeps (failTrace step cfg a (retry cfg + 1)) = map (\<lambda>i. 1000 * i) [a..<retry cfg + 1]"
    by (rule sleeps_failTrace) simp
  moreover have "sleeps (failEvents cfg (retry cfg + 1) (projl (step (retry cfg + 1)))) = []"
    by (simp add: sleeps_failEvents)
  ultimately show ?thesis by (simp add: sleeps_append)
next
  case False
  then show ?thesis by (simp add: failTrace_def)
qed

lemma connectLoop_success:
  assumes "a \<le> n" and "n \<le> retry cfg + 1"
    and "\<forall>i. a \<le> i \<and> i < n \<longrightarrow> isl (step i)" and "step n = Inr b"
  shows "connectLoop step cfg h a le s =
           (Inr h,
            s\<lparr>cachedConnection := Some h,
              objects := (objects s)[h := \<lparr>connected = b, config = cfg\<rparr>]\<rparr>,
            failTrace step cfg a n @ [Attempt n, LogInfo ''Connected to Q/KDB-X''])"
  using assms
proof (induction "n - a" arbitrary: a le s)
  case 0
  then have "a = n" by simp
  with 0 show ?case by (subst connectLoop.simps) simp
next
  case (Suc d)
  then have lt: "a < n" by simp
  with Suc.prems have "isl (step a)" by simp
  then obtain e where e: "step a = Inl e" by (cases "step a") auto
  have ih: "connectLoop step cfg h (Suc a) (Some e) (s\<lparr>cachedConnection := Some h\<rparr>) =
           (Inr h,
            s\<lparr>cachedConnection := Some h,
              objects := (objects s)[h := \<lparr>connected = b, config = cfg\<rparr>]\<rparr>,
            failTrace step cfg (Suc a) n @ [Attempt n, LogInfo ''Connected to Q/KDB-X''])"
    using Suc.hyps(1) [of "Suc a" "Some e" "s\<lparr>cachedConnection := Some h\<rparr>"]
      Suc.hyps(2) Suc.prems lt by simp
  from lt Suc.prems(2) have "a \<le> retry cfg + 1" by simp
  then show ?case
    by (subst connectLoop.simps) (simp add: e ih failTrace_step [OF lt])
qed

lemma connectLoop_exhausted:
  assumes "a \<le> retry cfg + 1"
    and "\<forall>i. a \<le> i \<and> i \<le> retry cfg + 1 \<longrightarrow> isl (step i)"
  shows "connectLoop step cfg h a le s =
           (Inl (projl (step (retry cfg + 1))), s\<lparr>cachedConnection := Some h\<rparr>,
            failTrace step cfg a (retry cfg + 2) @ [LogError ''Failed to connect to KDB''])"
  using assms
proof (induction "retry cfg + 1 - a" arbitrary: a le s)
  case 0
  then have a: "a = retry cfg + 1" by simp
  with 0 have "isl (step a)" by simp
  then obtain e where e: "step a = Inl e" by (cases "step a") auto
  have past: "connectLoop step cfg h (Suc a) (Some e) (s\<lparr>cachedConnection := Some h\<rparr>)
                = (Inl e, s\<lparr>cachedConnection := Some h\<rparr>, [LogError ''Failed to connect to KDB''])"
    by (subst connectLoop.simps) (simp add: a)
  have ft: "failTrace step cfg a (retry cfg + 2) = failEvents cfg a e"
    using failTrace_step [of a "retry cfg + 2" step cfg] a e by simp
  show ?case
    by (subst connectLoop.simps) (use a e past ft in simp)
next
  case (Suc d)
  then have lt: "a < retry cfg + 1" by simp
  with Suc.prems have "isl (step a)" by simp
  then obtain e where e: "step a = Inl e" by (cases "step a") auto
  have ih: "connectLoop step cfg h (Suc a) (Some e) (s\<lparr>cachedConnection := Some h\<rparr>) =
           (Inl (projl (step (retry cfg + 1))), s\<lparr>cachedConnection := Some h\<rparr>,
            failTrace step cfg (Suc a) (retry cfg + 2) @ [LogError ''Failed to connect to KDB''])"
    using Suc.hyps(1) [of "Suc a" "Some e" "s\<lparr>cachedConnection := Some h\<rparr>"]
      Suc.hyps(2) Suc.prems lt by simp
  from lt have lt2: "a < retry cfg + 2" by simp
  show ?case
    by (subst connectLoop.simps) (use lt e ih failTrace_step [OF lt2, of step cfg] in simp)
qed

lemma connectLoop_attempts_bound:
  "length (attempts (snd (snd (connectLoop step cfg h a le s)))) \<le> retry cfg + 2 - a"
proof (induction step cfg h a le s rule: connectLoop.induct)
  case (1 step cfg h attempt lastError s)
  show ?case
  proof (cases "attempt \<le> retry cfg + 1")
    case False
    then show ?thesis by (subst connectLoop.simps) simp
  next
    case True
    show ?thesis
    proof (cases "step attempt")
      case (Inr b)
      with True show ?thesis by (subst connectLoop.simps) simp
    next
      case (Inl e)
      obtain r s' evs where rec:
        "connectLoop step cfg h (attempt + 1) (Some e) (s\<lparr>cachedConnection := Some h\<rparr>)
           = (r, s', evs)"
        by (cases "connectLoop step cfg h (attempt + 1) (Some e) (s\<lparr>cachedConnection := Some h\<rparr>)")
           auto
      from "1.IH" [OF True Inl] rec have "length (attempts evs) \<le> retry cfg + 2 - (attempt + 1)"
        by simp
      with True Inl rec show ?thesis
        by (subst connectLoop.simps) (simp add: attempts_append attempts_failEvents)
    qed
  qed
qed

lemma attempts_frame: "attempts (LogInfo m # xs @ [LogError m']) = attempts xs"
  by (simp add: attempts_append)

lemma sleeps_frame: "sleeps (LogInfo m # xs @ [LogError m']) = sleeps xs"
  by (simp add: sleeps_append)

lemma attempts_frame_ok: "attempts (LogInfo m # xs @ [Attempt n, LogInfo m']) = attempts xs @ [n]"
  by (simp add: attempts_append)

lemma sleeps_frame_ok: "sleeps (LogInfo m # xs @ [Attempt n, LogInfo m']) = sleeps xs"
  by (simp add: sleeps_append)

lemma schedule_append: "schedule (xs @ ys) = schedule xs @ schedule ys"
  by (induction xs rule: schedule.induct) auto

lemma schedule_failEvents:
  "schedule (failEvents cfg i e) = Attempt i # (if i < retry cfg + 1 then [Sleep (1000 * i)] else [])"
  by (simp add: failEvents_def)

lemma schedule_failTrace:
  "n \<le> retry cfg + 1 \<Longrightarrow>
     schedule (failTrace step cfg a n) = concat (map (\<lambda>i. [Attempt i, Sleep (1000 * i)]) [a..<n])"
proof (induction "n - a" arbitrary: a)
  case 0
  then show ?case by (simp add: failTrace_def)
next
  case (Suc d)
  then have "a < n" by simp
  with Suc show ?case
    by (simp add: failTrace_step schedule_append schedule_failEvents upt_conv_Cons)
qed

lemma schedule_failTrace_all:
  "schedule (failTrace step cfg a (retry cfg + 2)) =
     (if a \<le> retry cfg + 1
      then concat (map (\<lambda>i. [Attempt i, Sleep (1000 * i)]) [a..<retry cfg + 1]) @ [Attempt (retry cfg + 1)]
      else [])"
proof (cases "a \<le> retry cfg + 1")
  case True
  have "failTrace step cfg a (Suc (retry cfg + 1)) =
          failTrace step cfg a (retry cfg + 1)
          @ failEvents cfg (retry cfg + 1) (projl (step (retry cfg + 1)))"
    using True by (rule failTrace_snoc)
  moreover have "schedule (failTrace step cfg a (retry cfg + 1))
                   = concat (map (\<lambda>i. [Attempt i, Sleep (1000 * i)]) [a..<retry cfg + 1])"
    by (rule schedule_failTrace) simp
  moreover have "schedule (failEvents cfg (retry cfg + 1) (projl (step (retry cfg + 1))))
                   = [Attempt (retry cfg + 1)]"
    by (simp add: schedule_failEvents)
  ultimately show ?thesis using True by (simp add: schedule_append)
next
  case False
  then show ?thesis by (simp add: failTrace_def)
qed

lemma schedule_frame: "schedule (LogInfo m # xs @ [LogError m']) = schedule xs"
  by (simp add: schedule_append)

lemma schedule_frame_ok: "schedule (LogInfo m # xs @ [Attempt n, LogInfo m']) = schedule xs @ [Attempt n]"
  by (simp add: schedule_append)

lemma getKDBConnection_fresh:
  "\<not> hasValidCache s \<Longrightarrow> getKDBConnection step cfg s = connectFresh step cfg s"
  by (simp add: hasValidCache_def getKDBConnection_def split: option.splits)

lemma getKDBConnection_cached:
  "hasValidCache s \<Longrightarrow> \<exists>h. cachedConnection s = Some h \<and> getKDBConnection step cfg s = (Inr h, s, [])"
  by (simp add: hasValidCache_def getKDBConnection_def split: option.splits)

lemma connectFresh_attempts_bound:
  "length (attempts (snd (snd (connectFresh step cfg s)))) \<le> retry cfg + 1"
proof -
  let ?s = "s\<lparr>objects := objects s @ [\<lparr>connected = False, config = cfg\<rparr>]\<rparr>"
  obtain r s' evs where l: "connectLoop step cfg (length (objects s)) 1 None ?s = (r, s', evs)"
    by (cases "connectLoop step cfg (length (objects s)) 1 None ?s") auto
  from connectLoop_attempts_bound [of step cfg "length (objects s)" 1 None ?s] l
  have "length (attempts evs) \<le> retry cfg + 1" by simp
  with l show ?thesis by (simp add: connectFresh_def)
qed

lemma connectFresh_success:
  assumes "1 \<le> n" and "n \<le> retry cfg + 1"
    and "\<forall>i. 1 \<le> i \<and> i < n \<longrightarrow> isl (step i)" and "step n = Inr b"
  shows "connectFresh step cfg s =
           (Inr (length (objects s)),
            s\<lparr>cachedConnection := Some (length (objects s)),
              objects := objects s @ [\<lparr>connected = b, config = cfg\<rparr>]\<rparr>,
            LogInfo (''Connecting to KDB at '' @ host cfg @ '':'' @ natToString (port cfg))
            # failTrace step cfg 1 n @ [Attempt n, LogInfo ''Connected to Q/KDB-X''])"
  using connectLoop_success [OF assms, of "length (objects s)" None
          "s\<lparr>objects := objects s @ [\<lparr>connected = False, config = cfg\<rparr>]\<rparr>"]
  by (simp add: connectFresh_def)

lemma connectFresh_exhausted:
  assumes "\<forall>i. 1 \<le> i \<and> i \<le> retry cfg + 1 \<longrightarrow> isl (step i)"
  shows "connectFresh step cfg s =
           (Inl (projl (step (retry cfg + 1))),
            s\<lparr>cachedConnection := Some (length (objects s)),
              objects := objects s @ [\<lparr>connected = False, config = cfg\<rparr>]\<rparr>,
            LogInfo (''Connecting to KDB at '' @ host cfg @ '':'' @ natToString (port cfg))
            # failTrace step cfg 1 (retry cfg + 2) @ [LogError ''Failed to connect to KDB''])"
proof -
  have "1 \<le> retry cfg + 1" by simp
  from connectLoop_exhausted [OF this assms, of "length (objects s)" None
          "s\<lparr>objects := objects s @ [\<lparr>connected = False, config = cfg\<rparr>]\<rparr>"]
  show ?thesis by (simp add: connectFresh_def)
qed

text \<open>
  Claim C3. With retry count \<open>r\<close>, \<open>getKDBConnection\<close> makes at most \<open>r + 1\<close> attempts in
  all. When no valid cached connection exists and attempt \<open>n\<close> is the first that succeeds,
  it returns the new connection object as that attempt left it and caches it; the attempts
  made are 1, ..., \<open>n\<close>, and after each failed attempt \<open>i\<close> it sleeps \<open>1000 * i\<close>
  milliseconds before the next one. When every attempt fails, the attempts are
  1, ..., \<open>r + 1\<close> with the same sleeps between them and none after the last.
\<close>

theorem connect_attempts:
  "length (attempts (snd (snd (getKDBConnection step cfg s)))) \<le> retry cfg + 1
   \<and> (\<not> hasValidCache s \<and> 1 \<le> n \<and> n \<le> retry cfg + 1
        \<and> (\<forall>i. 1 \<le> i \<and> i < n \<longrightarrow> isl (step i)) \<and> step n = Inr b
      \<longrightarrow> (\<exists>evs. getKDBConnection step cfg s =
                   (Inr (length (objects s)),
                    s\<lparr>cachedConnection := Some (length (objects s)),
                      objects := objects s @ [\<lparr>connected = b, config = cfg\<rparr>]\<rparr>,
                    evs)
                 \<and> attempts evs = [1..<n + 1]
                 \<and> sleeps evs = map (\<lambda>i. 1000 * i) [1..<n]
                 \<and> schedule evs
                     = concat (map (\<lambda>i. [Attempt i, Sleep (1000 * i)]) [1..<n]) @ [Attempt n]))
   \<and> (\<not> hasValidCache s \<and> (\<forall>i. 1 \<le> i \<and> i \<le> retry cfg + 1 \<longrightarrow> isl (step i))
      \<longrightarrow> attempts (snd (snd (getKDBConnection step cfg s))) = [1..<retry cfg + 2]
          \<and> sleeps (snd (snd (getKDBConnection step cfg s)))
              = map (\<lambda>i. 1000 * i) [1..<retry cfg + 1]
          \<and> schedule (snd (snd (getKDBConnection step cfg s)))
              = concat (map (\<lambda>i. [Attempt i, Sleep (1000 * i)]) [1..<retry cfg + 1])
                @ [Attempt (retry cfg + 1)])"
proof (intro conjI impI)
  show "length (attempts (snd (snd (getKDBConnection step cfg s)))) \<le> retry cfg + 1"
  proof (cases "hasValidCache s")
    case True
    from getKDBConnection_cached [OF this, of step cfg] show ?thesis by auto
  next
    case False
    with connectFresh_attempts_bound [of step cfg s] show ?thesis
      by (simp add: getKDBConnection_fresh)
  qed
next
  assume h: "\<not> hasValidCache s \<and> 1 \<le> n \<and> n \<le> retry cfg + 1
        \<and> (\<forall>i. 1 \<le> i \<and> i < n \<longrightarrow> isl (step i)) \<and> step n = Inr b"
  then have "connectFresh step cfg s =
           (Inr (length (objects s)),
            s\<lparr>cachedConnection := Some (length (objects s)),
              objects := objects s @ [\<lparr>connected = b, config = cfg\<rparr>]\<rparr>,
            LogInfo (''Connecting to KDB at '' @ host cfg @ '':'' @ natToString (port cfg))
            # failTrace step cfg 1 n @ [Attempt n, LogInfo ''Connected to Q/KDB-X''])"
    by (intro connectFresh_success) auto
  moreover from h have "n \<le> retry cfg + 1" by simp
  moreover from h have "n \<le> retry cfg + 1" and "1 \<le> n" by simp_all
  moreover have "[1..<n] @ [n] = [1..<n + 1]" using \<open>1 \<le> n\<close> by simp
  ultimately show "\<exists>evs. getKDBConnection step cfg s =
                   (Inr (length (objects s)),
                    s\<lparr>cachedConnection := Some (length (objects s)),
                      objects := objects s @ [\<lparr>connected = b, config = cfg\<rparr>]\<rparr>,
                    evs)
                 \<and> attempts evs = [1..<n + 1]
                 \<and> sleeps evs = map (\<lambda>i. 1000 * i) [1..<n]
                 \<and> schedule evs
                     = concat (map (\<lambda>i. [Attempt i, Sleep (1000 * i)]) [1..<n]) @ [Attempt n]"
    using h
    by (simp only: getKDBConnection_fresh attempts_frame_ok sleeps_frame_ok schedule_frame_ok
          attempts_failTrace sleeps_failTrace schedule_failTrace simp_thms prod.inject ex_simps)
next
  assume h: "\<not> hasValidCache s \<and> (\<forall>i. 1 \<le> i \<and> i \<le> retry cfg + 1 \<longrightarrow> isl (step i))"
  then have "getKDBConnection step cfg s =
           (Inl (projl (step (retry cfg + 1))),
            s\<lparr>cachedConnection := Some (length (objects s)),
              objects := objects s @ [\<lparr>connected = False, config = cfg\<rparr>]\<rparr>,
            LogInfo (''Connecting to KDB at '' @ host cfg @ '':'' @ natToString (port cfg))
            # failTrace step cfg 1 (retry cfg + 2) @ [LogError ''Failed to connect to KDB''])"
    using getKDBConnection_fresh [of s step cfg] connectFresh_exhausted [of cfg step s] by simp
  then show "attempts (snd (snd (getKDBConnection step cfg s))) = [1..<retry cfg + 2]"
    and "sleeps (snd (snd (getKDBConnection step cfg s))) = map (\<lambda>i. 1000 * i) [1..<retry cfg + 1]"
    and "schedule (snd (snd (getKDBConnection step cfg s)))
           = concat (map (\<lambda>i. [Attempt i, Sleep (1000 * i)]) [1..<retry cfg + 1])
             @ [Attempt (retry cfg + 1)]"
    by (simp_all only: snd_conv attempts_frame sleeps_frame schedule_frame attempts_failTrace
          sleeps_failTrace_all schedule_failTrace_all) simp
qed

lemma refused_all: "\<forall>i. 1 \<le> i \<and> i \<le> retry defaultKDBConfig + 1 \<longrightarrow> isl (connect_refused i)"
  by (simp add: connect_refused_def)

lemma default_target: "(host defaultKDBConfig @ '':'' @ natToString (port defaultKDBConfig)) = ''127.0.0.1:5000''"
  by (simp add: defaultKDBConfig_def natToString_def digits.simps digit_def)

lemma initial_no_cache: "\<not> hasValidCache initialState"
  by (simp add: hasValidCache_def initialState_def)

lemma second_first_fails: "\<forall>i. 1 \<le> i \<and> i < 2 \<longrightarrow> isl (connect_second i)"
  by (simp add: connect_second_def)

lemma second_succeeds: "connect_second 2 = Inr True"
  by (simp add: connect_second_def)

theorem connect_attempts_witness:
  "\<not> hasValidCache initialState
   \<and> length (attempts (snd (snd (getKDBConnection connect_second defaultKDBConfig initialState)))) \<le> 3
   \<and> (\<exists>evs. getKDBConnection connect_second defaultKDBConfig initialState =
               (Inr 0,
                \<lparr>cachedConnection = Some 0,
                 objects = [\<lparr>connected = True, config = defaultKDBConfig\<rparr>],
                 csvCache = Map.empty\<rparr>,
                evs)
             \<and> attempts evs = [1, 2] \<and> sleeps evs = [1000]
             \<and> schedule evs = [Attempt 1, Sleep 1000, Attempt 2])
   \<and> attempts (snd (snd (getKDBConnection connect_refused defaultKDBConfig initialState))) = [1, 2, 3]
   \<and> sleeps (snd (snd (getKDBConnection connect_refused defaultKDBConfig initialState))) = [1000, 2000]
   \<and> schedule (snd (snd (getKDBConnection connect_refused defaultKDBConfig initialState)))
       = [Attempt 1, Sleep 1000, Attempt 2, Sleep 2000, Attempt 3]"
proof -
  have r: "retry defaultKDBConfig = 2" by (simp add: defaultKDBConfig_def)
  have u1: "[1..<2 + 1] = [1, 2::nat]" and u2: "map (\<lambda>i. 1000 * i) [1..<2] = [1000::nat]"
    and u3: "[1..<retry defaultKDBConfig + 2] = [1, 2, 3::nat]"
    and u4: "map (\<lambda>i. 1000 * i) [1..<retry defaultKDBConfig + 1] = [1000, 2000::nat]"
    and u5: "concat (map (\<lambda>i. [Attempt i, Sleep (1000 * i)]) [1..<2]) @ [Attempt 2]
               = [Attempt 1, Sleep 1000, Attempt 2]"
    and u6: "concat (map (\<lambda>i. [Attempt i, Sleep (1000 * i)]) [1..<retry defaultKDBConfig + 1])
               @ [Attempt (retry defaultKDBConfig + 1)]
               = [Attempt 1, Sleep 1000, Attempt 2, Sleep 2000, Attempt 3]"
    by (simp_all add: r upt_rec)
  have ok: "\<not> hasValidCache initialState \<and> (1::nat) \<le> 2 \<and> 2 \<le> retry defaultKDBConfig + 1
     \<and> (\<forall>i. 1 \<le> i \<and> i < 2 \<longrightarrow> isl (connect_second i)) \<and> connect_second 2 = Inr True"
    using initial_no_cache second_first_fails second_succeeds by (simp add: r)
  have bad: "\<not> hasValidCache initialState
     \<and> (\<forall>i. 1 \<le> i \<and> i \<le> retry defaultKDBConfig + 1 \<longrightarrow> isl (connect_refused i))"
    using initial_no_cache refused_all by simp
  from connect_attempts [of connect_second defaultKDBConfig initialState 2 True] ok
    connect_attempts [of connect_refused defaultKDBConfig initialState 2 True] bad
  show ?thesis
    unfolding u1 u2 u3 u4 u5 u6 by (simp add: initialState_def r)
qed









lemma cleanup_cache: "cachedConnection (cleanupKDBConnection s) = None"
  by (simp add: cleanupKDBConnection_def split: option.splits)

lemma cleanup_idem: "cleanupKDBConnection (cleanupKDBConnection s) = cleanupKDBConnection s"
  using cleanup_cache [of s] by (simp add: cleanupKDBConnection_def [of "cleanupKDBConnection s"])

lemma cleanup_length: "length (objects (cleanupKDBConnection s)) = length (objects s)"
  by (simp add: cleanupKDBConnection_def split: option.splits)

lemma cleanup_no_cache: "\<not> hasValidCache (cleanupKDBConnection s)"
  by (simp add: hasValidCache_def cleanup_cache)

lemma connectLoop_result:
  "connectLoop step cfg h a le s = (Inr h', s', evs) \<Longrightarrow> h' = h \<and> cachedConnection s' = Some h"
proof (induction step cfg h a le s arbitrary: evs rule: connectLoop.induct)
  case (1 step cfg h attempt lastError s)
  show ?case
  proof (cases "attempt \<le> retry cfg + 1")
    case False
    with "1.prems" show ?thesis by (subst (asm) connectLoop.simps) simp
  next
    case True
    show ?thesis
    proof (cases "step attempt")
      case (Inr b)
      with True "1.prems" show ?thesis by (subst (asm) connectLoop.simps) auto
    next
      case (Inl e)
      obtain r s1 evs1 where rec:
        "connectLoop step cfg h (attempt + 1) (Some e) (s\<lparr>cachedConnection := Some h\<rparr>)
           = (r, s1, evs1)"
        by (cases "connectLoop step cfg h (attempt + 1) (Some e) (s\<lparr>cachedConnection := Some h\<rparr>)")
           auto
      with True Inl "1.prems" have "r = Inr h'" and "s1 = s'"
        by (subst (asm) connectLoop.simps, simp)+
      with "1.IH" [OF True Inl] rec show ?thesis by simp
    qed
  qed
qed

lemma connectLoop_first_event:
  assumes "a \<le> retry cfg + 1"
  shows "\<exists>rest. snd (snd (connectLoop step cfg h a le s)) = Attempt a # rest"
proof (cases "step a")
  case (Inr b)
  with assms show ?thesis by (subst connectLoop.simps) simp
next
  case (Inl e)
  obtain r s1 evs1 where
    "connectLoop step cfg h (a + 1) (Some e) (s\<lparr>cachedConnection := Some h\<rparr>) = (r, s1, evs1)"
    by (cases "connectLoop step cfg h (a + 1) (Some e) (s\<lparr>cachedConnection := Some h\<rparr>)") auto
  with assms Inl show ?thesis by (subst connectLoop.simps) (simp add: failEvents_def)
qed

lemma connectFresh_first_events:
  "\<exists>rest. snd (snd (connectFresh step cfg s)) =
      LogInfo (''Connecting to KDB at '' @ host cfg @ '':'' @ natToString (port cfg))
      # Attempt 1 # rest"
proof -
  let ?s = "s\<lparr>objects := objects s @ [\<lparr>connected = False, config = cfg\<rparr>]\<rparr>"
  have "1 \<le> retry cfg + 1" by simp
  from connectLoop_first_event [OF this, of step "length (objects s)" None ?s]
  obtain rest where rest: "snd (snd (connectLoop step cfg (length (objects s)) 1 None ?s)) = Attempt 1 # rest"
    by blast
  obtain r s' evs where l: "connectLoop step cfg (length (objects s)) 1 None ?s = (r, s', evs)"
    by (cases "connectLoop step cfg (length (objects s)) 1 None ?s") auto
  with rest show ?thesis by (simp add: connectFresh_def)
qed

lemma connectFresh_result:
  assumes "connectFresh step cfg s = (Inr h, s', evs)"
  shows "h = length (objects s) \<and> cachedConnection s' = Some h"
proof -
  let ?s = "s\<lparr>objects := objects s @ [\<lparr>connected = False, config = cfg\<rparr>]\<rparr>"
  obtain r s1 evs1 where l: "connectLoop step cfg (length (objects s)) 1 None ?s = (r, s1, evs1)"
    by (cases "connectLoop step cfg (length (objects s)) 1 None ?s") auto
  with assms have "r = Inr h" and "s1 = s'" by (simp_all add: connectFresh_def)
  with l connectLoop_result [of step cfg "length (objects s)" 1 None ?s h s' evs1]
  show ?thesis by simp
qed

text \<open>
  \<open>wf_state\<close> holds when the process starts and is kept by the two functions that write
  \<open>cachedConnection\<close>.
\<close>

lemma wf_initial: "wf_state initialState"
  by (simp add: wf_state_def initialState_def)

lemma wf_cleanup: "wf_state (cleanupKDBConnection s)"
  by (simp add: wf_state_def cleanup_cache)

lemma connectLoop_state:
  "connectLoop step cfg h a le s = (r, s', evs) \<Longrightarrow>
     s' = s \<or> s' = s\<lparr>cachedConnection := Some h\<rparr>
     \<or> (\<exists>b. s' = s\<lparr>cachedConnection := Some h,
                        objects := (objects s)[h := \<lparr>connected = b, config = cfg\<rparr>]\<rparr>)"
proof (induction step cfg h a le s arbitrary: r s' evs rule: connectLoop.induct)
  case (1 step cfg h attempt lastError s)
  show ?case
  proof (cases "attempt \<le> retry cfg + 1")
    case False
    with "1.prems" show ?thesis by (subst (asm) connectLoop.simps) simp
  next
    case True
    show ?thesis
    proof (cases "step attempt")
      case (Inr b)
      with True "1.prems" show ?thesis by (subst (asm) connectLoop.simps) auto
    next
      case (Inl e)
      obtain r1 s1 evs1 where rec:
        "connectLoop step cfg h (attempt + 1) (Some e) (s\<lparr>cachedConnection := Some h\<rparr>)
           = (r1, s1, evs1)"
        by (cases "connectLoop step cfg h (attempt + 1) (Some e) (s\<lparr>cachedConnection := Some h\<rparr>)")
           auto
      with True Inl "1.prems" have "s1 = s'"
        by (subst (asm) connectLoop.simps) simp
      with "1.IH" [OF True Inl] rec show ?thesis by simp
    qed
  qed
qed

lemma wf_connectFresh:
  assumes "wf_state s"
  shows "wf_state (fst (snd (connectFresh step cfg s)))"
proof -
  let ?s = "s\<lparr>objects := objects s @ [\<lparr>connected = False, config = cfg\<rparr>]\<rparr>"
  obtain r s' evs where l: "connectLoop step cfg (length (objects s)) 1 None ?s = (r, s', evs)"
    by (cases "connectLoop step cfg (length (objects s)) 1 None ?s") auto
  from assms have "wf_state ?s" by (auto simp: wf_state_def split: option.splits)
  with connectLoop_state [OF l] have "wf_state s'" by (auto simp: wf_state_def)
  with l show ?thesis by (simp add: connectFresh_def)
qed

lemma wf_getKDBConnection:
  "wf_state s \<Longrightarrow> wf_state (fst (snd (getKDBConnection step cfg s)))"
proof (cases "hasValidCache s")
  case True
  assume "wf_state s"
  with getKDBConnection_cached [OF True, of step cfg] show ?thesis by auto
next
  case False
  assume "wf_state s"
  with False show ?thesis by (simp add: getKDBConnection_fresh wf_connectFresh)
qed

text \<open>
  Claim C5. \<open>cleanupKDBConnection\<close> is idempotent and leaves \<open>cachedConnection\<close> at
  \<open>null\<close>. The next \<open>getKDBConnection\<close> then runs the connect sequence from its first
  attempt, and a connection it returns is a new object (its address is the first unused
  one), which it caches; in particular it is not the object that was cached before the
  cleanup.
\<close>

theorem cleanup_then_fresh:
  "cleanupKDBConnection (cleanupKDBConnection s) = cleanupKDBConnection s
   \<and> cachedConnection (cleanupKDBConnection s) = None
   \<and> (\<exists>rest. snd (snd (getKDBConnection step cfg (cleanupKDBConnection s))) =
          LogInfo (''Connecting to KDB at '' @ host cfg @ '':'' @ natToString (port cfg))
          # Attempt 1 # rest)
   \<and> (\<forall>h s' evs. getKDBConnection step cfg (cleanupKDBConnection s) = (Inr h, s', evs)
         \<longrightarrow> h = length (objects s) \<and> cachedConnection s' = Some h
             \<and> (wf_state s \<longrightarrow> cachedConnection s \<noteq> Some h))"
proof (intro conjI allI impI)
  show "cleanupKDBConnection (cleanupKDBConnection s) = cleanupKDBConnection s"
    by (rule cleanup_idem)
  show "cachedConnection (cleanupKDBConnection s) = None"
    by (rule cleanup_cache)
  have fresh: "getKDBConnection step cfg (cleanupKDBConnection s)
                 = connectFresh step cfg (cleanupKDBConnection s)"
    by (rule getKDBConnection_fresh [OF cleanup_no_cache])
  show "\<exists>rest. snd (snd (getKDBConnection step cfg (cleanupKDBConnection s))) =
          LogInfo (''Connecting to KDB at '' @ host cfg @ '':'' @ natToString (port cfg))
          # Attempt 1 # rest"
    unfolding fresh by (rule connectFresh_first_events)
  fix h s' evs
  assume "getKDBConnection step cfg (cleanupKDBConnection s) = (Inr h, s', evs)"
  then have "connectFresh step cfg (cleanupKDBConnection s) = (Inr h, s', evs)"
    by (simp only: fresh)
  from connectFresh_result [OF this]
  show h: "h = length (objects s)" and "cachedConnection s' = Some h"
    by (simp_all add: cleanup_length)
  assume "wf_state s"
  with h show "cachedConnection s \<noteq> Some h"
    by (auto simp: wf_state_def)
qed

lemma connectedState_reached:
  "getKDBConnection connect_impl defaultKDBConfig initialState
     = (Inr 0, connectedState,
        [LogInfo ''Connecting to KDB at 127.0.0.1:5000'', Attempt 1, LogInfo ''Connected to Q/KDB-X''])"
proof -
  have t: "''Connecting to KDB at '' @ host defaultKDBConfig @ '':''
             @ natToString (port defaultKDBConfig) = ''Connecting to KDB at 127.0.0.1:5000''"
    unfolding default_target by simp
  have "(1::nat) \<le> 1" and "1 \<le> retry defaultKDBConfig + 1"
    and "\<forall>i. 1 \<le> i \<and> i < 1 \<longrightarrow> isl (connect_impl i)" and "connect_impl 1 = Inr True"
    by (simp_all add: connect_impl_def)
  from connectFresh_success [OF this, of initialState] initial_no_cache
  show ?thesis
    unfolding t by (simp add: getKDBConnection_fresh connectedState_def initialState_def)
qed

lemma connectedState_reuse:
  "getKDBConnection connect_impl defaultKDBConfig connectedState = (Inr 0, connectedState, [])"
  by (simp add: getKDBConnection_def connectedState_def isConnected_def)

lemma reconnect_eval:
  "getKDBConnection connect_impl defaultKDBConfig (cleanupKDBConnection connectedState)
     = (Inr 1,
        \<lparr>cachedConnection = Some 1,
         objects = [\<lparr>connected = False, config = defaultKDBConfig\<rparr>,
                    \<lparr>connected = True, config = defaultKDBConfig\<rparr>],
         csvCache = Map.empty\<rparr>,
        [LogInfo ''Connecting to KDB at 127.0.0.1:5000'', Attempt 1, LogInfo ''Connected to Q/KDB-X''])"
proof -
  have t: "''Connecting to KDB at '' @ host defaultKDBConfig @ '':''
             @ natToString (port defaultKDBConfig) = ''Connecting to KDB at 127.0.0.1:5000''"
    unfolding default_target by simp
  have "(1::nat) \<le> 1" and "1 \<le> retry defaultKDBConfig + 1"
    and "\<forall>i. 1 \<le> i \<and> i < 1 \<longrightarrow> isl (connect_impl i)" and "connect_impl 1 = Inr True"
    by (simp_all add: connect_impl_def)
  from connectFresh_success [OF this, of "cleanupKDBConnection connectedState"]
    cleanup_no_cache [of connectedState]
  show ?thesis
    unfolding t by (simp add: getKDBConnection_fresh connectedState_def cleanupKDBConnection_def)
qed

theorem cleanup_then_fresh_witness:
  "wf_state connectedState
   \<and> cachedConnection connectedState = Some 0
   \<and> fst (getKDBConnection connect_impl defaultKDBConfig connectedState) = Inr 0
   \<and> cleanupKDBConnection (cleanupKDBConnection connectedState) = cleanupKDBConnection connectedState
   \<and> cachedConnection (cleanupKDBConnection connectedState) = None
   \<and> fst (getKDBConnection connect_impl defaultKDBConfig (cleanupKDBConnection connectedState)) = Inr 1
   \<and> 1 = length (objects connectedState)
   \<and> cachedConnection connectedState \<noteq> Some 1"
proof -
  have wf: "wf_state connectedState" by (simp add: wf_state_def connectedState_def)
  from cleanup_then_fresh [of connectedState connect_impl defaultKDBConfig] reconnect_eval wf
  show ?thesis
    by (simp add: connectedState_reuse) (simp add: connectedState_def)
qed

section \<open>The reply of the remote call in the SQL query tool\<close>

text \<open>
  When the connection is connected and the remote call returns a reply that reports more
  than \<open>MAX_ROWS_RETURNED\<close> rows, \<open>runQueryImpl\<close> answers with the rows of the reply as they
  are and the message about the first rows: cutting the rows is left to the remote call,
  whose query text takes \<open>y sublist r\<close>.
\<close>

lemma runQueryImpl_over_cap:
  assumes gate: "checkKeywords (queryUpper toUpperCase trim q) dangerousKeywords = None"
    and conn: "getKDBConnection step cfg s = (Inr h, s1, evs)"
    and up: "connected (objects s1 ! h)"
    and reply: "remote queryText = Inr reply"
    and cnt: "rowCount reply = Some cnt" "int MAX_ROWS_RETURNED < cnt"
    and rows: "reply_data reply = Some rws"
  shows "fst (runQueryImpl toUpperCase trim step remote q cfg s) =
           \<lparr>status = success, data = Some rws,
            message = Some (''Showing first '' @ natToString MAX_ROWS_RETURNED @ '' of ''
                            @ numberToString cnt @ '' rows''),
            error_type = None, technical_details = None\<rparr>"
proof -
  from cnt have "cnt \<noteq> 0" by simp
  with assms show ?thesis
    by (simp add: runQueryImpl_def runQueryTry_def KDBConnectionImpl_query_def)
qed

text \<open>
  With the connection step and the \<open>query\<close> method as the source has them, no reply ever
  arrives: whatever the state, a query that passes the gate is answered with status
  \<open>error\<close>.
\<close>

lemma runQueryCatch_status: "status (fst (runQueryCatch e)) = error"
  by (simp add: runQueryCatch_def)

lemma runQueryImpl_todo_error:
  assumes "checkKeywords (queryUpper toUpperCase trim q) dangerousKeywords = None"
  shows "status (fst (runQueryImpl toUpperCase trim connect_todo remote_todo q cfg s)) = error"
proof -
  obtain h s1 evs where conn: "getKDBConnection connect_todo cfg s = (Inr h, s1, evs)"
    using getKDBConnection_todo by blast
  have "\<exists>e. KDBConnectionImpl_query (remote_todo :: string \<Rightarrow> Error + 'a QueryReply)
              (objects s1 ! h) queryText = Inl e"
    by (simp add: KDBConnectionImpl_query_def remote_todo_def)
  then obtain e where thrown:
    "KDBConnectionImpl_query (remote_todo :: string \<Rightarrow> Error + 'a QueryReply)
       (objects s1 ! h) queryText = Inl e"
    by blast
  obtain res evs' where c: "runQueryCatch e = ((res :: 'a QueryResult), evs')"
    by (cases "runQueryCatch e :: 'a QueryResult \<times> event list") auto
  with runQueryCatch_status [of e] have "status res = error"
    by (metis fst_conv)
  with assms conn thrown c show ?thesis
    by (simp add: runQueryImpl_def runQueryTry_def)
qed

section \<open>Embedding configuration lookup and hybrid search: properties\<close>

lemma cast_clean: "clean_record (map_option cast \<circ> r)"
  by (auto simp: clean_record_def cast_def split: option.splits if_splits)

lemma clean_initial: "clean_cache initialState"
  by (simp add: clean_cache_def initialState_def)

lemma getCsvData_clean:
  assumes "clean_cache s" and "getCsvData readCsv p s = (Inr df, s1)"
  shows "clean_cache s1 \<and> (\<forall>row \<in> set df. clean_record row)"
proof (cases "csvCache s p")
  case (Some recs)
  with assms show ?thesis by (auto simp: getCsvData_def clean_cache_def)
next
  case None
  show ?thesis
  proof (cases "readCsv p")
    case (Inl e)
    with None assms show ?thesis by (simp add: getCsvData_def)
  next
    case (Inr raw)
    with None assms(2) have df: "df = map (\<lambda>r. map_option cast \<circ> r) raw"
      and s1: "s1 = s\<lparr>csvCache := (csvCache s)(p \<mapsto> df)\<rparr>"
      by (auto simp: getCsvData_def Let_def)
    from df have rows: "\<forall>row \<in> set df. clean_record row" by (auto simp: cast_clean)
    with assms(1) s1 show ?thesis by (auto simp: clean_cache_def)
  qed
qed

lemma orNull_clean: "clean_record row \<Longrightarrow> orNull (row c) = cell_value (row c)"
  by (auto simp: clean_record_def orNull_def cell_value_def split: option.splits)

lemma getEmbeddingConfig_one:
  assumes "getCsvData readCsv (embeddingCsvPath cfg) s = (Inr df, s1)"
    and "filter (matches tableName) df = [row]"
  shows "getEmbeddingConfig readCsv tableName cfg s =
           (Inr \<lparr>embeddingColumn = orNull (row ''embedding_column''),
                 embeddingProvider = orNull (row ''embedding_provider''),
                 embeddingModel = orNull (row ''embedding_model''),
                 sparseEmbeddingColumn = orNull (row ''sparse_embedding_column''),
                 sparseIndexName = orNull (row ''sparse_index_name''),
                 sparseTokenizerProvider = orNull (row ''sparse_tokenizer_provider''),
                 sparseTokenizerModel = orNull (row ''sparse_tokenizer_model'')\<rparr>, s1)"
  using assms by (simp add: getEmbeddingConfig_def Let_def)

lemma getEmbeddingConfig_none:
  assumes "getCsvData readCsv (embeddingCsvPath cfg) s = (Inr df, s1)"
    and "filter (matches tableName) df = []"
  shows "getEmbeddingConfig readCsv tableName cfg s =
           (Inl (Error (''No configuration found for table='' @ quoted tableName)), s1)"
  using assms by (simp add: getEmbeddingConfig_def Let_def)

lemma getEmbeddingConfig_many:
  assumes "getCsvData readCsv (embeddingCsvPath cfg) s = (Inr df, s1)"
    and "1 < length (filter (matches tableName) df)"
  shows "getEmbeddingConfig readCsv tableName cfg s =
           (Inl (Error (''Multiple configurations found for table='' @ quoted tableName
                        @ ''. Please ensure each table has only one configuration row.'')), s1)"
proof -
  from assms(2) have "filter (matches tableName) df \<noteq> []" by auto
  with assms show ?thesis by (simp add: getEmbeddingConfig_def Let_def)
qed

text \<open>
  Claim C6. Over the records of the configuration table: when exactly one record has the
  requested table name, \<open>getEmbeddingConfig\<close> returns the seven fields read from the seven
  columns of that record, each cell unchanged (a missing or \<open>null\<close> cell as \<open>null\<close>); when
  no record matches it throws, and when more than one matches it throws.
\<close>

theorem embedding_config_lookup:
  assumes "getCsvData readCsv (embeddingCsvPath cfg) s = (Inr df, s1)"
  shows "(\<forall>row. filter (matches tableName) df = [row] \<longrightarrow>
            getEmbeddingConfig readCsv tableName cfg s =
              (Inr \<lparr>embeddingColumn = orNull (row ''embedding_column''),
                    embeddingProvider = orNull (row ''embedding_provider''),
                    embeddingModel = orNull (row ''embedding_model''),
                    sparseEmbeddingColumn = orNull (row ''sparse_embedding_column''),
                    sparseIndexName = orNull (row ''sparse_index_name''),
                    sparseTokenizerProvider = orNull (row ''sparse_tokenizer_provider''),
                    sparseTokenizerModel = orNull (row ''sparse_tokenizer_model'')\<rparr>, s1)
            \<and> (clean_cache s \<longrightarrow> (\<forall>c. orNull (row c) = cell_value (row c))))
       \<and> (filter (matches tableName) df = [] \<longrightarrow>
            getEmbeddingConfig readCsv tableName cfg s =
              (Inl (Error (''No configuration found for table='' @ quoted tableName)), s1))
       \<and> (1 < length (filter (matches tableName) df) \<longrightarrow>
            getEmbeddingConfig readCsv tableName cfg s =
              (Inl (Error (''Multiple configurations found for table='' @ quoted tableName
                           @ ''. Please ensure each table has only one configuration row.'')),
               s1))"
proof (intro conjI allI impI)
  fix row
  assume one: "filter (matches tableName) df = [row]"
  from getEmbeddingConfig_one [OF assms one]
  show "getEmbeddingConfig readCsv tableName cfg s =
              (Inr \<lparr>embeddingColumn = orNull (row ''embedding_column''),
                    embeddingProvider = orNull (row ''embedding_provider''),
                    embeddingModel = orNull (row ''embedding_model''),
                    sparseEmbeddingColumn = orNull (row ''sparse_embedding_column''),
                    sparseIndexName = orNull (row ''sparse_index_name''),
                    sparseTokenizerProvider = orNull (row ''sparse_tokenizer_provider''),
                    sparseTokenizerModel = orNull (row ''sparse_tokenizer_model'')\<rparr>, s1)" .
  fix c
  assume "clean_cache s"
  from getCsvData_clean [OF this assms] have "\<forall>r \<in> set df. clean_record r" by simp
  moreover from one have "row \<in> set (filter (matches tableName) df)" by simp
  ultimately have "clean_record row" by simp
  then show "orNull (row c) = cell_value (row c)" by (rule orNull_clean)
next
  assume "filter (matches tableName) df = []"
  from getEmbeddingConfig_none [OF assms this]
  show "getEmbeddingConfig readCsv tableName cfg s =
              (Inl (Error (''No configuration found for table='' @ quoted tableName)), s1)" .
next
  assume "1 < length (filter (matches tableName) df)"
  from getEmbeddingConfig_many [OF assms this]
  show "getEmbeddingConfig readCsv tableName cfg s =
              (Inl (Error (''Multiple configurations found for table='' @ quoted tableName
                           @ ''. Please ensure each table has only one configuration row.'')),
               s1)" .
qed

lemma example_loaded:
  "getCsvData csv_example (embeddingCsvPath defaultKDBConfig) initialState =
     (Inr (map (\<lambda>r. map_option cast \<circ> r) csv_example_rows),
      initialState\<lparr>csvCache := [embeddingCsvPath defaultKDBConfig
                                  \<mapsto> map (\<lambda>r. map_option cast \<circ> r) csv_example_rows]\<rparr>)"
  by (simp add: getCsvData_def csv_example_def initialState_def Let_def)

lemma example_docs:
  "filter (matches ''docs'') (map (\<lambda>r. map_option cast \<circ> r) csv_example_rows)
     = [map_option cast \<circ> (csv_example_rows ! 0)]"
  by (simp add: csv_example_rows_def matches_def cast_def)

lemma example_trades:
  "filter (matches ''trades'') (map (\<lambda>r. map_option cast \<circ> r) csv_example_rows) = []"
  by (simp add: csv_example_rows_def matches_def cast_def)

lemma example_dup:
  "1 < length (filter (matches ''dup'') (map (\<lambda>r. map_option cast \<circ> r) csv_example_rows))"
  by (simp add: csv_example_rows_def matches_def cast_def)

lemma example_docs_config:
  "\<lparr>embeddingColumn = orNull ((map_option cast \<circ> (csv_example_rows ! 0)) ''embedding_column''),
    embeddingProvider = orNull ((map_option cast \<circ> (csv_example_rows ! 0)) ''embedding_provider''),
    embeddingModel = orNull ((map_option cast \<circ> (csv_example_rows ! 0)) ''embedding_model''),
    sparseEmbeddingColumn =
      orNull ((map_option cast \<circ> (csv_example_rows ! 0)) ''sparse_embedding_column''),
    sparseIndexName = orNull ((map_option cast \<circ> (csv_example_rows ! 0)) ''sparse_index_name''),
    sparseTokenizerProvider =
      orNull ((map_option cast \<circ> (csv_example_rows ! 0)) ''sparse_tokenizer_provider''),
    sparseTokenizerModel =
      orNull ((map_option cast \<circ> (csv_example_rows ! 0)) ''sparse_tokenizer_model'')\<rparr>
   = \<lparr>embeddingColumn = Some ''vec'', embeddingProvider = Some ''openai'',
      embeddingModel = Some ''small'', sparseEmbeddingColumn = None, sparseIndexName = None,
      sparseTokenizerProvider = None, sparseTokenizerModel = None\<rparr>"
  by (simp add: csv_example_rows_def orNull_def cast_def)

lemma example_docs_lookup:
  "getEmbeddingConfig csv_example ''docs'' defaultKDBConfig initialState =
     (Inr \<lparr>embeddingColumn = Some ''vec'', embeddingProvider = Some ''openai'',
           embeddingModel = Some ''small'', sparseEmbeddingColumn = None,
           sparseIndexName = None, sparseTokenizerProvider = None,
           sparseTokenizerModel = None\<rparr>,
      initialState\<lparr>csvCache := [embeddingCsvPath defaultKDBConfig
                                  \<mapsto> map (\<lambda>r. map_option cast \<circ> r) csv_example_rows]\<rparr>)"
  using getEmbeddingConfig_one [OF example_loaded example_docs]
  unfolding example_docs_config .

theorem embedding_config_lookup_witness:
  "fst (getEmbeddingConfig csv_example ''docs'' defaultKDBConfig initialState) =
     Inr \<lparr>embeddingColumn = Some ''vec'', embeddingProvider = Some ''openai'',
          embeddingModel = Some ''small'', sparseEmbeddingColumn = None, sparseIndexName = None,
          sparseTokenizerProvider = None, sparseTokenizerModel = None\<rparr>
   \<and> fst (getEmbeddingConfig csv_example ''trades'' defaultKDBConfig initialState) =
     Inl (Error (''No configuration found for table='' @ quoted ''trades''))
   \<and> fst (getEmbeddingConfig csv_example ''dup'' defaultKDBConfig initialState) =
     Inl (Error (''Multiple configurations found for table='' @ quoted ''dup''
                 @ ''. Please ensure each table has only one configuration row.''))
   \<and> clean_cache initialState
   \<and> orNull ((map_option cast \<circ> (csv_example_rows ! 0)) ''embedding_model'')
       = cell_value ((map_option cast \<circ> (csv_example_rows ! 0)) ''embedding_model'')"
proof -
  note t = embedding_config_lookup [OF example_loaded]
  from t [of "''docs''"] example_docs clean_initial
  have "orNull ((map_option cast \<circ> (csv_example_rows ! 0)) ''embedding_model'')
       = cell_value ((map_option cast \<circ> (csv_example_rows ! 0)) ''embedding_model'')"
    by blast
  moreover note clean_initial
  moreover
  from t [of "''docs''"] example_docs
  have "getEmbeddingConfig csv_example ''docs'' defaultKDBConfig initialState =
          (Inr \<lparr>embeddingColumn = Some ''vec'', embeddingProvider = Some ''openai'',
                embeddingModel = Some ''small'', sparseEmbeddingColumn = None,
                sparseIndexName = None, sparseTokenizerProvider = None,
                sparseTokenizerModel = None\<rparr>,
           initialState\<lparr>csvCache := [embeddingCsvPath defaultKDBConfig
                                  \<mapsto> map (\<lambda>r. map_option cast \<circ> r) csv_example_rows]\<rparr>)"
    unfolding example_docs_config [symmetric] by blast
  moreover from t [of "''trades''"] example_trades
  have "fst (getEmbeddingConfig csv_example ''trades'' defaultKDBConfig initialState) =
     Inl (Error (''No configuration found for table='' @ quoted ''trades''))"
    by simp
  moreover from t [of "''dup''"] example_dup
  have "fst (getEmbeddingConfig csv_example ''dup'' defaultKDBConfig initialState) =
     Inl (Error (''Multiple configurations found for table='' @ quoted ''dup''
                 @ ''. Please ensure each table has only one configuration row.''))"
    by simp
  ultimately show ?thesis by simp
qed

lemma getCsvData_connection:
  "getCsvData readCsv p s = (r, s1) \<Longrightarrow> cachedConnection s1 = cachedConnection s \<and> objects s1 = objects s"
  by (auto simp: getCsvData_def Let_def split: option.splits sum.splits)

lemma getEmbeddingConfig_connection:
  assumes "getEmbeddingConfig readCsv tableName cfg s = (r, s1)"
  shows "cachedConnection s1 = cachedConnection s \<and> objects s1 = objects s"
proof -
  obtain r0 s0 where g: "getCsvData readCsv (embeddingCsvPath cfg) s = (r0, s0)"
    by (cases "getCsvData readCsv (embeddingCsvPath cfg) s") auto
  with assms have "s1 = s0"
    by (cases r0) (auto simp: getEmbeddingConfig_def Let_def split: if_splits)
  with getCsvData_connection [OF g] show ?thesis by simp
qed

text \<open>
  Claim C7. When the configuration found for the table has no \<open>sparseIndexName\<close>, the
  \<open>try\<close> block of the hybrid search returns (it does not throw) the result with status
  \<open>error\<close>, the message about the missing sparse index and the table name. The only
  effect is one log line: no provider is looked up or called, no query is sent, and the
  connection cache is untouched.
\<close>

theorem hybrid_missing_sparse_index:
  assumes "getEmbeddingConfig readCsv tableName cfg s = (Inr ec, s1)"
    and "sparseIndexName ec = None"
  shows "hybridSearchTry providerRegistry step remote readCsv tableName query n cfg s =
           (Inr \<lparr>search_status = error,
                 search_message = Some ''The requested table does not have sparse index'',
                 table = Some tableName, recordsCount = None, records = None\<rparr>,
            s1,
            [LogInfo (''Error performing hybrid search on table '' @ tableName
                      @ '': Missing sparse index'')])
       \<and> kdbxHybridSearchImpl providerRegistry step remote readCsv tableName query n cfg s =
           (\<lparr>search_status = error,
             search_message = Some ''The requested table does not have sparse index'',
             table = Some tableName, recordsCount = None, records = None\<rparr>,
            s1,
            [LogInfo (''Error performing hybrid search on table '' @ tableName
                      @ '': Missing sparse index'')])
       \<and> (\<forall>ev \<in> set (snd (snd (kdbxHybridSearchImpl providerRegistry step remote readCsv
                                    tableName query n cfg s))).
             \<not> isProviderCall ev \<and> \<not> isQuery ev)
       \<and> cachedConnection s1 = cachedConnection s \<and> objects s1 = objects s"
proof -
  from assms have body: "hybridSearchTry providerRegistry step remote readCsv tableName query n cfg s =
           (Inr \<lparr>search_status = error,
                 search_message = Some ''The requested table does not have sparse index'',
                 table = Some tableName, recordsCount = None, records = None\<rparr>,
            s1,
            [LogInfo (''Error performing hybrid search on table '' @ tableName
                      @ '': Missing sparse index'')])"
    by (simp add: hybridSearchTry_def falsy_def)
  then have impl: "kdbxHybridSearchImpl providerRegistry step remote readCsv tableName query n cfg s =
           (\<lparr>search_status = error,
             search_message = Some ''The requested table does not have sparse index'',
             table = Some tableName, recordsCount = None, records = None\<rparr>,
            s1,
            [LogInfo (''Error performing hybrid search on table '' @ tableName
                      @ '': Missing sparse index'')])"
    by (simp add: kdbxHybridSearchImpl_def)
  from impl have "\<forall>ev \<in> set (snd (snd (kdbxHybridSearchImpl providerRegistry step remote readCsv
                                    tableName query n cfg s))).
             \<not> isProviderCall ev \<and> \<not> isQuery ev"
    by simp
  with body impl getEmbeddingConfig_connection [OF assms(1)] show ?thesis by blast
qed

text \<open>
  Claim C9. When the configuration table has no record for the table, the hybrid search
  answers with status \<open>error\<close>, the table name and the stringified lookup error
  (\<open>Error: No configuration found for table='...'\<close>), which is not the sparse-index message;
  the only effect is the error log line, so no provider is called and no query is sent.
\<close>

theorem hybrid_unconfigured_table:
  assumes "getCsvData readCsv (embeddingCsvPath cfg) s = (Inr df, s1)"
    and "filter (matches tableName) df = []"
  shows "kdbxHybridSearchImpl providerRegistry step remote readCsv tableName query n cfg s =
           (\<lparr>search_status = error,
             search_message =
               Some (''Error: No configuration found for table='' @ quoted tableName),
             table = Some tableName, recordsCount = None, records = None\<rparr>,
            s1,
            [LogError (''Error performing search on table '' @ tableName
                       @ '': Error: No configuration found for table='' @ quoted tableName)])
       \<and> search_message (fst (kdbxHybridSearchImpl providerRegistry step remote readCsv
                                 tableName query n cfg s))
           \<noteq> Some ''The requested table does not have sparse index''
       \<and> (\<forall>ev \<in> set (snd (snd (kdbxHybridSearchImpl providerRegistry step remote readCsv
                                    tableName query n cfg s))).
             \<not> isProviderCall ev \<and> \<not> isQuery ev)"
proof -
  from getEmbeddingConfig_none [OF assms]
  have impl: "kdbxHybridSearchImpl providerRegistry step remote readCsv tableName query n cfg s =
           (\<lparr>search_status = error,
             search_message =
               Some (''Error: No configuration found for table='' @ quoted tableName),
             table = Some tableName, recordsCount = None, records = None\<rparr>,
            s1,
            [LogError (''Error performing search on table '' @ tableName
                       @ '': Error: No configuration found for table='' @ quoted tableName)])"
    by (simp add: kdbxHybridSearchImpl_def hybridSearchTry_def toString_def)
  then show ?thesis by simp
qed

theorem hybrid_missing_sparse_index_witness:
  "kdbxHybridSearchImpl registry_example connect_impl remote_rows csv_example
       ''docs'' ''what is kdb'' None defaultKDBConfig initialState =
     (\<lparr>search_status = error,
       search_message = Some ''The requested table does not have sparse index'',
       table = Some ''docs'', recordsCount = None, records = None\<rparr>,
      initialState\<lparr>csvCache := [embeddingCsvPath defaultKDBConfig
                                  \<mapsto> map (\<lambda>r. map_option cast \<circ> r) csv_example_rows]\<rparr>,
      [LogInfo ''Error performing hybrid search on table docs: Missing sparse index''])"
proof -
  have "sparseIndexName \<lparr>embeddingColumn = Some ''vec'', embeddingProvider = Some ''openai'',
           embeddingModel = Some ''small'', sparseEmbeddingColumn = None,
           sparseIndexName = None, sparseTokenizerProvider = None,
           sparseTokenizerModel = None\<rparr> = None"
    by simp
  from hybrid_missing_sparse_index [OF example_docs_lookup this,
         of registry_example connect_impl remote_rows "''what is kdb''" None]
  show ?thesis by simp
qed

theorem hybrid_unconfigured_table_witness:
  "kdbxHybridSearchImpl registry_example connect_impl remote_rows csv_example
       ''trades'' ''what is kdb'' None defaultKDBConfig initialState =
     (\<lparr>search_status = error,
       search_message = Some (''Error: No configuration found for table='' @ quoted ''trades''),
       table = Some ''trades'', recordsCount = None, records = None\<rparr>,
      initialState\<lparr>csvCache := [embeddingCsvPath defaultKDBConfig
                                  \<mapsto> map (\<lambda>r. map_option cast \<circ> r) csv_example_rows]\<rparr>,
      [LogError (''Error performing search on table trades: ''
                 @ ''Error: No configuration found for table='' @ quoted ''trades'')])"
  using hybrid_unconfigured_table [OF example_loaded example_trades,
          of registry_example connect_impl remote_rows "''what is kdb''" None]
  by simp

section \<open>Stripping vector columns\<close>

lemma deleteKey_absent: "\<not> hasKey c row \<Longrightarrow> deleteKey c row = row"
  by (induction row) (auto simp: hasKey_def deleteKey_def)

lemma removeColumn_filter:
  "fst (removeColumn what col row) = filter (\<lambda>(key, v). \<not> (key \<noteq> [] \<and> col = Some key)) row"
proof (cases col)
  case None
  then show ?thesis by (simp add: removeColumn_def)
next
  case (Some c)
  show ?thesis
  proof (cases "c \<noteq> [] \<and> hasKey c row")
    case True
    have "(\<lambda>(key, v). key \<noteq> c) = (\<lambda>(key, v :: cell). \<not> (key \<noteq> [] \<and> c = key))"
      using True by auto
    with True Some show ?thesis by (simp add: removeColumn_def deleteKey_def)
  next
    case False
    show ?thesis
    proof (cases "c = []")
      case True
      have "(\<lambda>(key, v :: cell). \<not> (key \<noteq> [] \<and> c = key)) = (\<lambda>kv. True)"
        using True by auto
      with True Some show ?thesis by (simp add: removeColumn_def)
    next
      case nonempty: False
      with False have absent: "\<not> hasKey c row" by simp
      have "(\<lambda>(key, v). key \<noteq> c) = (\<lambda>(key, v :: cell). \<not> (key \<noteq> [] \<and> c = key))"
        using nonempty by auto
      with deleteKey_absent [OF absent] have "filter (\<lambda>(key, v). \<not> (key \<noteq> [] \<and> c = key)) row = row"
        by (simp add: deleteKey_def)
      with Some absent show ?thesis by (simp add: removeColumn_def)
    qed
  qed
qed

lemma stripRow_kept: "fst (stripRow ec row) = keptColumns ec row"
proof -
  obtain r1 e1 where a: "removeColumn ''embedding'' (embeddingColumn ec) row = (r1, e1)"
    by (cases "removeColumn ''embedding'' (embeddingColumn ec) row") auto
  obtain r2 e2 where b: "removeColumn ''sparse embedding'' (sparseEmbeddingColumn ec) r1 = (r2, e2)"
    by (cases "removeColumn ''sparse embedding'' (sparseEmbeddingColumn ec) r1") auto
  from a have r1: "r1 = filter (\<lambda>(key, v). \<not> (key \<noteq> [] \<and> embeddingColumn ec = Some key)) row"
    using removeColumn_filter [of "''embedding''" "embeddingColumn ec" row] by simp
  from b have r2: "r2 = filter (\<lambda>(key, v). \<not> (key \<noteq> [] \<and> sparseEmbeddingColumn ec = Some key)) r1"
    using removeColumn_filter [of "''sparse embedding''" "sparseEmbeddingColumn ec" r1] by simp
  have "r2 = keptColumns ec row"
    unfolding r2 r1 keptColumns_def removed_def filter_filter
    by (rule filter_cong) auto
  with a b show ?thesis by (simp add: stripRow_def)
qed

lemma keptColumns_idem: "keptColumns ec (keptColumns ec row) = keptColumns ec row"
  by (simp add: keptColumns_def)

lemma keptColumns_subseq: "subseq (keptColumns ec row) row"
  by (simp add: keptColumns_def)

lemma keptColumns_map_of:
  "\<not> removed ec key \<Longrightarrow> map_of (keptColumns ec row) key = map_of row key"
  by (induction row) (auto simp: keptColumns_def)

lemma getCsvData_stable:
  "getCsvData readCsv p s = (r, s1) \<Longrightarrow> getCsvData readCsv p s1 = (r, s1)"
  by (auto simp: getCsvData_def Let_def split: option.splits sum.splits)

lemma getEmbeddingConfig_stable:
  assumes "getEmbeddingConfig readCsv tableName cfg s = (r, s1)"
  shows "getEmbeddingConfig readCsv tableName cfg s1 = (r, s1)"
proof -
  obtain r0 s0 where g: "getCsvData readCsv (embeddingCsvPath cfg) s = (r0, s0)"
    by (cases "getCsvData readCsv (embeddingCsvPath cfg) s") auto
  with assms have s: "s1 = s0"
    by (cases r0) (auto simp: getEmbeddingConfig_def Let_def split: if_splits)
  from getCsvData_stable [OF g] have g': "getCsvData readCsv (embeddingCsvPath cfg) s1 = (r0, s1)"
    by (simp add: s)
  from assms g s have "(case (r0, s1) of
        (Inl e, s1) \<Rightarrow> (Inl e, s1)
      | (Inr df, s1) \<Rightarrow>
          (let matchingRows = filter (matches tableName) df in
           if length matchingRows = 0 then
             (Inl (Error (''No configuration found for table='' @ quoted tableName)), s1)
           else if length matchingRows > 1 then
             (Inl (Error (''Multiple configurations found for table='' @ quoted tableName
                          @ ''. Please ensure each table has only one configuration row.'')), s1)
           else
             (let row = matchingRows ! 0 in
              (Inr \<lparr>embeddingColumn = orNull (row ''embedding_column''),
                    embeddingProvider = orNull (row ''embedding_provider''),
                    embeddingModel = orNull (row ''embedding_model''),
                    sparseEmbeddingColumn = orNull (row ''sparse_embedding_column''),
                    sparseIndexName = orNull (row ''sparse_index_name''),
                    sparseTokenizerProvider = orNull (row ''sparse_tokenizer_provider''),
                    sparseTokenizerModel = orNull (row ''sparse_tokenizer_model'')\<rparr>, s1)))) = (r, s1)"
    unfolding getEmbeddingConfig_def by simp
  then show ?thesis unfolding getEmbeddingConfig_def g' .
qed

lemma removeVectorColumns_rows:
  "getEmbeddingConfig readCsv tableName cfg s = (r, s1) \<Longrightarrow>
     fst (removeVectorColumns readCsv rws tableName cfg s) =
       (case r of Inr ec \<Rightarrow> map (keptColumns ec) rws | Inl e \<Rightarrow> rws)
     \<and> fst (snd (removeVectorColumns readCsv rws tableName cfg s)) = s1"
  by (cases r) (simp_all add: removeVectorColumns_def stripRow_kept)

text \<open>
  Claim C8. Applying \<open>removeVectorColumns\<close> to its own output, for the same table and
  configuration, gives that output again, both in the state the first application leaves
  and in the state it started from.
\<close>

theorem removeVectorColumns_idempotent:
  "fst (removeVectorColumns readCsv (fst (removeVectorColumns readCsv rws tableName cfg s))
          tableName cfg (fst (snd (removeVectorColumns readCsv rws tableName cfg s))))
     = fst (removeVectorColumns readCsv rws tableName cfg s)
   \<and> fst (removeVectorColumns readCsv (fst (removeVectorColumns readCsv rws tableName cfg s))
          tableName cfg s)
     = fst (removeVectorColumns readCsv rws tableName cfg s)"
proof -
  obtain r s1 where g: "getEmbeddingConfig readCsv tableName cfg s = (r, s1)"
    by (cases "getEmbeddingConfig readCsv tableName cfg s") auto
  note g1 = getEmbeddingConfig_stable [OF g]
  show ?thesis
  proof (cases r)
    case (Inl e)
    with removeVectorColumns_rows [OF g] removeVectorColumns_rows [OF g1] show ?thesis by simp
  next
    case (Inr ec)
    with removeVectorColumns_rows [OF g] removeVectorColumns_rows [OF g1] show ?thesis
      by (simp add: keptColumns_idem)
  qed
qed

section \<open>Stripping vector columns over a store of row objects\<close>

lemma deleteAt_fresh:
  "deleteAt col (length store) (store @ [r]) = store @ [fst (removeColumn what col r)]"
  by (cases col) (simp_all add: deleteAt_def removeColumn_def)

lemma strip_fresh:
  "deleteAt (sparseEmbeddingColumn ec) (length store)
     (deleteAt (embeddingColumn ec) (length store) (store @ [r]))
   = store @ [keptColumns ec r]"
proof -
  obtain r1 e1 where a: "removeColumn ''embedding'' (embeddingColumn ec) r = (r1, e1)"
    by (cases "removeColumn ''embedding'' (embeddingColumn ec) r") auto
  obtain r2 e2 where b: "removeColumn ''sparse embedding'' (sparseEmbeddingColumn ec) r1 = (r2, e2)"
    by (cases "removeColumn ''sparse embedding'' (sparseEmbeddingColumn ec) r1") auto
  from a b have "fst (stripRow ec r) = r2" by (simp add: stripRow_def)
  then have k: "keptColumns ec r = r2" by (simp add: stripRow_kept)
  have "deleteAt (embeddingColumn ec) (length store) (store @ [r]) = store @ [r1]"
    using deleteAt_fresh [of "embeddingColumn ec" store r "''embedding''"] a by simp
  moreover have "deleteAt (sparseEmbeddingColumn ec) (length store) (store @ [r1]) = store @ [r2]"
    using deleteAt_fresh [of "sparseEmbeddingColumn ec" store r1 "''sparse embedding''"] b by simp
  ultimately show ?thesis by (simp add: k)
qed

lemma mapRows_store_eq:
  "\<forall>a \<in> set rws. a < length store \<Longrightarrow>
     mapRows_store ec rws store =
       ([length store..<length store + length rws],
        store @ map (\<lambda>a. keptColumns ec (store ! a)) rws)"
proof (induction rws arbitrary: store)
  case Nil
  then show ?case by simp
next
  case (Cons a rws)
  let ?store3 = "store @ [keptColumns ec (store ! a)]"
  from Cons.prems have lt: "\<forall>b \<in> set rws. b < length ?store3" by auto
  from Cons.prems have same: "map (\<lambda>b. keptColumns ec (?store3 ! b)) rws
                               = map (\<lambda>b. keptColumns ec (store ! b)) rws"
    by (auto simp: nth_append)
  have "mapRows_store ec rws ?store3 =
          ([length ?store3..<length ?store3 + length rws],
           ?store3 @ map (\<lambda>b. keptColumns ec (?store3 ! b)) rws)"
    by (rule Cons.IH [OF lt])
  then have ih: "mapRows_store ec rws ?store3 =
          ([Suc (length store)..<Suc (length store) + length rws],
           ?store3 @ map (\<lambda>b. keptColumns ec (store ! b)) rws)"
    by (simp only: same) simp
  have "[length store..<length store + length (a # rws)]
          = length store # [Suc (length store)..<Suc (length store) + length rws]"
    using upt_conv_Cons [of "length store" "length store + length (a # rws)"] by simp
  with ih show ?case
    by (simp add: Let_def strip_fresh del: upt_Suc)
qed

text \<open>
  Claim C10, as amended. \<open>removeVectorColumns\<close> changes no object that existed before the
  call, so its input rows keep all their columns, and its output rows hold the rows that the
  value-level function computes. When the table's configuration is found, every output row
  is a new object, and it is the input row without the configured dense and sparse
  embedding columns: the other columns keep their values and their order. When the lookup
  fails, the rows returned are the input objects themselves.
\<close>

theorem removeVectorColumns_frame:
  assumes "\<forall>a \<in> set rws. a < length store"
  shows "(case removeVectorColumns_store readCsv rws tableName cfg s store of
            (out, store', s1) \<Rightarrow>
              take (length store) store' = store
              \<and> map (\<lambda>a. store' ! a) out
                  = fst (removeVectorColumns readCsv (map (\<lambda>a. store ! a) rws) tableName cfg s)
              \<and> (case fst (getEmbeddingConfig readCsv tableName cfg s) of
                    Inr ec \<Rightarrow>
                      out = [length store..<length store + length rws]
                      \<and> length store' = length store + length rws
                      \<and> map (\<lambda>a. store' ! a) out = map (\<lambda>a. keptColumns ec (store ! a)) rws
                      \<and> (\<forall>row. subseq (keptColumns ec row) row)
                      \<and> (\<forall>row key. \<not> removed ec key
                            \<longrightarrow> map_of (keptColumns ec row) key = map_of row key)
                  | Inl e \<Rightarrow> out = rws \<and> store' = store))"
proof -
  obtain r s1 where g: "getEmbeddingConfig readCsv tableName cfg s = (r, s1)"
    by (cases "getEmbeddingConfig readCsv tableName cfg s") auto
  show ?thesis
  proof (cases r)
    case (Inl e)
    with g removeVectorColumns_rows [OF g, of "map (\<lambda>a. store ! a) rws"] show ?thesis
      by (simp add: removeVectorColumns_store_def)
  next
    case (Inr ec)
    have nth: "map (\<lambda>a. (store @ map (\<lambda>a. keptColumns ec (store ! a)) rws) ! a)
                 [length store..<length store + length rws]
               = map (\<lambda>a. keptColumns ec (store ! a)) rws"
      by (rule nth_equalityI) (simp_all add: nth_append)
    from Inr g removeVectorColumns_rows [OF g, of "map (\<lambda>a. store ! a) rws"]
      mapRows_store_eq [OF assms, of ec] nth
    show ?thesis
      by (simp add: removeVectorColumns_store_def keptColumns_subseq keptColumns_map_of comp_def)
  qed
qed

text \<open>
  The claim as stated fails: for a table without configuration the output row is the input
  object (address 0 of the store), not a copy.
\<close>

theorem removeVectorColumns_frame_counterexample:
  "fst (removeVectorColumns_store csv_example [0] ''trades'' defaultKDBConfig initialState
          store_example) = [0]
   \<and> (0::nat) < length store_example"
proof -
  from getEmbeddingConfig_none [OF example_loaded example_trades]
  show ?thesis by (simp add: removeVectorColumns_store_def store_example_def)
qed

lemma example_valid: "\<forall>a \<in> set [0]. a < length store_example"
  by (simp add: store_example_def)

lemma example_strip:
  "removeVectorColumns_store csv_example [0] ''docs'' defaultKDBConfig initialState store_example
     = ([1],
        [[(''id'', Num 1), (''vec'', Vector [1, 2]), (''body'', Str ''kdb'')],
         [(''id'', Num 1), (''body'', Str ''kdb'')]],
        initialState\<lparr>csvCache := [embeddingCsvPath defaultKDBConfig
                                  \<mapsto> map (\<lambda>r. map_option cast \<circ> r) csv_example_rows]\<rparr>)"
proof -
  have kept: "keptColumns \<lparr>embeddingColumn = Some ''vec'', embeddingProvider = Some ''openai'',
           embeddingModel = Some ''small'', sparseEmbeddingColumn = None,
           sparseIndexName = None, sparseTokenizerProvider = None,
           sparseTokenizerModel = None\<rparr> (store_example ! 0) = [(''id'', Num 1), (''body'', Str ''kdb'')]"
    by (simp add: keptColumns_def removed_def store_example_def)
  have len: "length store_example = 1" by (simp add: store_example_def)
  from mapRows_store_eq [OF example_valid,
         of "\<lparr>embeddingColumn = Some ''vec'', embeddingProvider = Some ''openai'',
           embeddingModel = Some ''small'', sparseEmbeddingColumn = None,
           sparseIndexName = None, sparseTokenizerProvider = None,
           sparseTokenizerModel = None\<rparr>"]
  have "mapRows_store \<lparr>embeddingColumn = Some ''vec'', embeddingProvider = Some ''openai'',
           embeddingModel = Some ''small'', sparseEmbeddingColumn = None,
           sparseIndexName = None, sparseTokenizerProvider = None,
           sparseTokenizerModel = None\<rparr> [0] store_example
        = ([1], store_example @ [[(''id'', Num 1), (''body'', Str ''kdb'')]])"
    unfolding len by (simp add: kept)
  with example_docs_lookup show ?thesis
    by (simp add: removeVectorColumns_store_def store_example_def)
qed

theorem removeVectorColumns_frame_witness:
  "take (length store_example)
        (fst (snd (removeVectorColumns_store csv_example [0] ''docs'' defaultKDBConfig
                     initialState store_example))) = store_example
   \<and> fst (removeVectorColumns_store csv_example [0] ''docs'' defaultKDBConfig initialState
            store_example) = [1]
   \<and> fst (snd (removeVectorColumns_store csv_example [0] ''docs'' defaultKDBConfig
                 initialState store_example)) ! 1 = [(''id'', Num 1), (''body'', Str ''kdb'')]"
proof -
  have "take (length store_example)
        (fst (snd (removeVectorColumns_store csv_example [0] ''docs'' defaultKDBConfig
                     initialState store_example))) = store_example"
    using removeVectorColumns_frame [OF example_valid, of csv_example "''docs''" defaultKDBConfig
            initialState]
    by (simp add: case_prod_beta)
  moreover have "fst (removeVectorColumns_store csv_example [0] ''docs'' defaultKDBConfig
                        initialState store_example) = [1]
   \<and> fst (snd (removeVectorColumns_store csv_example [0] ''docs'' defaultKDBConfig
                 initialState store_example)) ! 1 = [(''id'', Num 1), (''body'', Str ''kdb'')]"
    by (simp add: example_strip)
  ultimately show ?thesis by simp
qed

end
